theory Spec2Isabelle
  imports Main
begin

section \<open>Python strings\<close>

text \<open>
  A Python \<open>str\<close> is modelled as a \<open>string\<close>, one \<open>char\<close> per code point, which covers the
  code points below 256. The character classes below are the ones CPython uses on that range.
\<close>

definition ord :: "char \<Rightarrow> int" where
  "ord c = of_char c"

definition isspace :: "char \<Rightarrow> bool" where
  \<comment> \<open>the characters \<open>str.strip()\<close> removes: TAB, LF, VT, FF, CR, FS, GS, RS, US, SPACE, NEL, NBSP\<close>
  "isspace c \<longleftrightarrow> ord c \<in> {9, 10, 11, 12, 13, 28, 29, 30, 31, 32, 133, 160}"

definition is_digit :: "char \<Rightarrow> bool" where
  \<comment> \<open>the regular expression class \<open>\d\<close>\<close>
  "is_digit c \<longleftrightarrow> 48 \<le> ord c \<and> ord c \<le> 57"

definition isalnum :: "char \<Rightarrow> bool" where
  \<comment> \<open>\<open>str.isalnum()\<close> of one character: letters, decimal digits and the other numeric characters\<close>
  "isalnum c \<longleftrightarrow>
     (let n = ord c in
        (48 \<le> n \<and> n \<le> 57) \<or> (65 \<le> n \<and> n \<le> 90) \<or> (97 \<le> n \<and> n \<le> 122)
        \<or> n \<in> {170, 178, 179, 181, 185, 186, 188, 189, 190}
        \<or> (192 \<le> n \<and> n \<le> 214) \<or> (216 \<le> n \<and> n \<le> 246) \<or> (248 \<le> n \<and> n \<le> 255))"

definition strip :: "string \<Rightarrow> string" where
  "strip s = rev (dropWhile isspace (rev (dropWhile isspace s)))"

definition digit_val :: "char \<Rightarrow> int" where
  "digit_val c = ord c - 48"

definition int_of_digits :: "string \<Rightarrow> int" where
  \<comment> \<open>\<open>int(s)\<close> for a string of decimal digits\<close>
  "int_of_digits s = foldl (\<lambda>n c. 10 * n + digit_val c) 0 s"

definition digit_char :: "int \<Rightarrow> char" where
  "digit_char d = char_of (48 + d)"

function str_int :: "int \<Rightarrow> string" where
  \<comment> \<open>\<open>str(n)\<close> of an integer that is not negative\<close>
  "str_int n = (if n < 10 then [digit_char n]
                else str_int (n div 10) @ [digit_char (n mod 10)])"
  by pat_completeness auto
termination
  by (relation "measure nat") auto

declare str_int.simps [simp del]

section \<open>Python floats\<close>

text \<open>
  A \<open>float\<close> is an IEEE 754 binary64 value. Only values that are not negative occur in this
  program; \<open>Finite m e\<close> stands for the number \<open>m * 2 ^ e\<close>.
\<close>

datatype pyfloat = Finite int int | Infinity | NaN

datatype error = ValueError | OverflowError | ZeroDivisionError

function bitlen :: "int \<Rightarrow> int" where
  \<comment> \<open>\<open>int.bit_length()\<close>\<close>
  "bitlen n = (if n \<le> 0 then 0 else 1 + bitlen (n div 2))"
  by pat_completeness auto
termination
  by (relation "measure nat") auto

declare bitlen.simps [simp del]

definition scaled_le :: "int \<Rightarrow> int \<Rightarrow> int \<Rightarrow> bool" where
  \<comment> \<open>\<open>d * 2 ^ k \<le> n\<close> for an exponent of either sign\<close>
  "scaled_le d k n = (if 0 \<le> k then d * 2 ^ nat k \<le> n else d \<le> n * 2 ^ nat (- k))"

definition round_frac :: "int \<Rightarrow> int \<Rightarrow> pyfloat" where
  \<comment> \<open>the binary64 value nearest to the fraction \<open>n / d\<close> (\<open>d > 0\<close>), ties to even: 53 significant
      bits, the unit in the last place never below \<open>2 ^ -1074\<close>, infinity from \<open>2 ^ 1024\<close> on\<close>
  "round_frac n d =
     (if n = 0 then Finite 0 0
      else
        let k = bitlen n - bitlen d;
            e = (if scaled_le d k n then k else k - 1);
            u = max (e - 52) (- 1074);
            N = (if u < 0 then n * 2 ^ nat (- u) else n);
            D = (if u < 0 then d else d * 2 ^ nat u);
            q = N div D;
            r = N mod D;
            m = (if 2 * r < D then q else if D < 2 * r then q + 1
                 else if even q then q else q + 1)
        in if 0 \<le> u \<and> 2 ^ 1024 \<le> m * 2 ^ nat u then Infinity else Finite m u)"

definition py_float :: "string \<Rightarrow> error + pyfloat" where
  \<comment> \<open>\<open>float(s)\<close> on the decimal literals \<open>\d+\.\d+\<close>, correctly rounded. Python reads further
      forms (signs, exponents, \<open>inf\<close>, surrounding blanks); they are not modelled and are
      reported as \<open>ValueError\<close> here. No validated price or total is of such a form.\<close>
  "py_float s =
     (let ip = takeWhile (\<lambda>c. c \<noteq> CHR ''.'') s;
          rest = dropWhile (\<lambda>c. c \<noteq> CHR ''.'') s
      in case rest of
           [] \<Rightarrow> Inl ValueError
         | _ # fp \<Rightarrow>
             if ip \<noteq> [] \<and> fp \<noteq> [] \<and> list_all is_digit ip \<and> list_all is_digit fp
             then Inr (round_frac (int_of_digits (ip @ fp)) (10 ^ length fp))
             else Inl ValueError)"

definition float_0_2 :: pyfloat where
  \<comment> \<open>the literal \<open>0.2\<close>\<close>
  "float_0_2 = round_frac 2 10"

definition float_0_25 :: pyfloat where
  \<comment> \<open>the literal \<open>0.25\<close>\<close>
  "float_0_25 = round_frac 25 100"

fun float_mul :: "pyfloat \<Rightarrow> pyfloat \<Rightarrow> pyfloat" where
  "float_mul (Finite m1 e1) (Finite m2 e2) =
     (let m = m1 * m2; e = e1 + e2
      in if 0 \<le> e then round_frac (m * 2 ^ nat e) 1 else round_frac m (2 ^ nat (- e)))"
| "float_mul NaN _ = NaN"
| "float_mul _ NaN = NaN"
| "float_mul Infinity (Finite m e) = (if m = 0 then NaN else Infinity)"
| "float_mul (Finite m e) Infinity = (if m = 0 then NaN else Infinity)"
| "float_mul Infinity Infinity = Infinity"

fun float_mod :: "pyfloat \<Rightarrow> pyfloat \<Rightarrow> error + pyfloat" where
  \<comment> \<open>\<open>x % y\<close> for \<open>y\<close> not negative: a zero divisor raises, the remainder of two finite
      values is exact\<close>
  "float_mod x (Finite m2 e2) =
     (if m2 = 0 then Inl ZeroDivisionError
      else case x of
             Finite m1 e1 \<Rightarrow>
               let e = min e1 e2; a = m1 * 2 ^ nat (e1 - e); b = m2 * 2 ^ nat (e2 - e)
               in Inr (Finite (a mod b) e)
           | Infinity \<Rightarrow> Inr NaN
           | NaN \<Rightarrow> Inr NaN)"
| "float_mod x Infinity = (case x of Finite m e \<Rightarrow> Inr (Finite m e) | _ \<Rightarrow> Inr NaN)"
| "float_mod x NaN = Inr NaN"

fun float_eq_0 :: "pyfloat \<Rightarrow> bool" where
  \<comment> \<open>\<open>x == 0\<close>\<close>
  "float_eq_0 (Finite m e) = (m = 0)"
| "float_eq_0 Infinity = False"
| "float_eq_0 NaN = False"

fun is_integer :: "pyfloat \<Rightarrow> bool" where
  "is_integer (Finite m e) = (0 \<le> e \<or> m mod 2 ^ nat (- e) = 0)"
| "is_integer Infinity = False"
| "is_integer NaN = False"

fun math_ceil :: "pyfloat \<Rightarrow> error + int" where
  "math_ceil (Finite m e) =
     Inr (if 0 \<le> e then m * 2 ^ nat e else - ((- m) div 2 ^ nat (- e)))"
| "math_ceil Infinity = Inl OverflowError"
| "math_ceil NaN = Inl ValueError"

section \<open>Dates and times\<close>

record datetime =
  year :: int
  month :: int
  day :: int
  hour :: int
  minute :: int

definition is_leap :: "int \<Rightarrow> bool" where
  "is_leap y \<longleftrightarrow> y mod 4 = 0 \<and> (y mod 100 \<noteq> 0 \<or> y mod 400 = 0)"

definition days_in_month :: "int \<Rightarrow> int \<Rightarrow> int" where
  "days_in_month y m =
     (if m = 2 then (if is_leap y then 29 else 28)
      else if m \<in> {4, 6, 9, 11} then 30 else 31)"

text \<open>
  \<open>datetime.strptime\<close> turns each directive into a group of a regular expression, matches
  the string from its start and rejects it when characters are left over:
  \<open>%Y\<close> is \<open>\d\d\d\d\<close>, \<open>%m\<close> is \<open>1[0-2]|0[1-9]|[1-9]\<close>,
  \<open>%d\<close> is \<open>3[0-1]|[1-2]\d|0[1-9]|[1-9]| [1-9]\<close>, \<open>%H\<close> is \<open>2[0-3]|[0-1]\d|\d\<close> and
  \<open>%M\<close> is \<open>[0-5]\d|\d\<close>. In the three formats of this program a group is followed by a
  separator that no group can contain, or by the end of the string, so a group matches
  exactly the characters up to there. The functions below give the number a group reads.
\<close>

definition in_range :: "char \<Rightarrow> char \<Rightarrow> char \<Rightarrow> bool" where
  \<comment> \<open>the character class \<open>[lo-hi]\<close>\<close>
  "in_range lo hi c \<longleftrightarrow> ord lo \<le> ord c \<and> ord c \<le> ord hi"

fun group_m :: "string \<Rightarrow> int option" where
  "group_m [a, b] =
     (if a = CHR ''1'' \<and> in_range CHR ''0'' CHR ''2'' b then Some (10 + digit_val b)
      else if a = CHR ''0'' \<and> in_range CHR ''1'' CHR ''9'' b then Some (digit_val b)
      else None)"
| "group_m [a] = (if in_range CHR ''1'' CHR ''9'' a then Some (digit_val a) else None)"
| "group_m _ = None"

fun group_d :: "string \<Rightarrow> int option" where
  "group_d [a, b] =
     (if a = CHR ''3'' \<and> in_range CHR ''0'' CHR ''1'' b then Some (30 + digit_val b)
      else if in_range CHR ''1'' CHR ''2'' a \<and> is_digit b then Some (10 * digit_val a + digit_val b)
      else if a = CHR ''0'' \<and> in_range CHR ''1'' CHR ''9'' b then Some (digit_val b)
      else if a = CHR '' '' \<and> in_range CHR ''1'' CHR ''9'' b then Some (digit_val b)
      else None)"
| "group_d [a] = (if in_range CHR ''1'' CHR ''9'' a then Some (digit_val a) else None)"
| "group_d _ = None"

fun group_H :: "string \<Rightarrow> int option" where
  "group_H [a, b] =
     (if a = CHR ''2'' \<and> in_range CHR ''0'' CHR ''3'' b then Some (20 + digit_val b)
      else if in_range CHR ''0'' CHR ''1'' a \<and> is_digit b then Some (10 * digit_val a + digit_val b)
      else None)"
| "group_H [a] = (if is_digit a then Some (digit_val a) else None)"
| "group_H _ = None"

fun group_M :: "string \<Rightarrow> int option" where
  "group_M [a, b] =
     (if in_range CHR ''0'' CHR ''5'' a \<and> is_digit b then Some (10 * digit_val a + digit_val b)
      else None)"
| "group_M [a] = (if is_digit a then Some (digit_val a) else None)"
| "group_M _ = None"

definition parse_date :: "char \<Rightarrow> string \<Rightarrow> datetime option" where
  \<comment> \<open>the formats \<open>%Y-%m-%d\<close> and \<open>%Y/%m/%d\<close>, \<open>sep\<close> being the separator; a year 0 and a day
      the month does not have are refused when the date is built\<close>
  "parse_date sep s =
     (case s of
        y1 # y2 # y3 # y4 # c # rest \<Rightarrow>
          if list_all is_digit [y1, y2, y3, y4] \<and> c = sep then
            (case dropWhile (\<lambda>x. x \<noteq> sep) rest of
               [] \<Rightarrow> None
             | _ # ds \<Rightarrow>
                 (case (group_m (takeWhile (\<lambda>x. x \<noteq> sep) rest), group_d ds) of
                    (Some m, Some d) \<Rightarrow>
                      let y = int_of_digits [y1, y2, y3, y4]
                      in if 1 \<le> y \<and> d \<le> days_in_month y m
                         then Some \<lparr>year = y, month = m, day = d, hour = 0, minute = 0\<rparr>
                         else None
                  | _ \<Rightarrow> None))
          else None
      | _ \<Rightarrow> None)"

definition parse_time :: "string \<Rightarrow> datetime option" where
  \<comment> \<open>the format \<open>%H:%M\<close>; the date defaults to 1900-01-01\<close>
  "parse_time s =
     (case dropWhile (\<lambda>x. x \<noteq> CHR '':'') s of
        [] \<Rightarrow> None
      | _ # ms \<Rightarrow>
          (case (group_H (takeWhile (\<lambda>x. x \<noteq> CHR '':'') s), group_M ms) of
             (Some h, Some m) \<Rightarrow> Some \<lparr>year = 1900, month = 1, day = 1, hour = h, minute = m\<rparr>
           | _ \<Rightarrow> None))"

definition strptime :: "string \<Rightarrow> string \<Rightarrow> error + datetime" where
  \<comment> \<open>\<open>datetime.strptime(s, fmt)\<close> for the three formats the program uses; it raises
      \<open>ValueError\<close> when the string does not parse\<close>
  "strptime s fmt =
     (case (if fmt = ''%Y-%m-%d'' then parse_date CHR ''-'' s
            else if fmt = ''%Y/%m/%d'' then parse_date CHR ''/'' s
            else if fmt = ''%H:%M'' then parse_time s
            else None) of
        None \<Rightarrow> Inl ValueError
      | Some d \<Rightarrow> Inr d)"

definition pad2 :: "int \<Rightarrow> string" where
  "pad2 n = [digit_char (n div 10 mod 10), digit_char (n mod 10)]"

definition strftime :: "datetime \<Rightarrow> string" where
  \<comment> \<open>\<open>d.strftime("%Y-%m-%d")\<close> as CPython gives it with the GNU C library: the year in as
      many digits as it has, with no leading zeros, the month and the day in two digits\<close>
  "strftime d = str_int (year d) @ ''-'' @ pad2 (month d) @ ''-'' @ pad2 (day d)"

definition time_lt :: "int \<times> int \<Rightarrow> int \<times> int \<Rightarrow> bool" where
  \<comment> \<open>\<open><\<close> on \<open>datetime.time\<close> values of whole minutes: hour first, then minute\<close>
  "time_lt a b \<longleftrightarrow> fst a < fst b \<or> (fst a = fst b \<and> snd a < snd b)"

section \<open>The receipt model (\<open>models.py\<close>)\<close>

record item =
  shortDescription :: string
  price :: string

record receipt =
  retailer :: string
  purchaseDate :: string
  purchaseTime :: string
  items :: "item list"
  total :: string

definition fullmatch_money :: "string \<Rightarrow> bool" where
  \<comment> \<open>\<open>re.fullmatch(r'^\d+\.\d{2}$', v)\<close>\<close>
  "fullmatch_money v =
     (case rev v of
        b # a # dot # ip \<Rightarrow>
          is_digit b \<and> is_digit a \<and> dot = CHR ''.'' \<and> ip \<noteq> [] \<and> list_all is_digit ip
      | _ \<Rightarrow> False)"

definition min_length_1 :: "string \<Rightarrow> string + string" where
  \<comment> \<open>the constraint \<open>Field(..., min_length=1)\<close>; the message is the library's\<close>
  "min_length_1 v =
     (if length v < 1 then Inl ''ensure this value has at least 1 characters'' else Inr v)"

definition description_not_empty :: "string \<Rightarrow> string + string" where
  "description_not_empty v =
     (if strip v = [] then Inl ''shortDescription cannot be empty or whitespace'' else Inr v)"

definition valid_price :: "string \<Rightarrow> string + string" where
  "valid_price v =
     (if \<not> fullmatch_money v then Inl ''Price must be in XX.XX format'' else Inr v)"

definition retailer_not_empty :: "string \<Rightarrow> string + string" where
  "retailer_not_empty v =
     (if strip v = [] then Inl ''Retailer cannot be empty or whitespace'' else Inr v)"

fun valid_date_loop :: "string list \<Rightarrow> string \<Rightarrow> string + string" where
  "valid_date_loop [] v =
     Inl ''purchaseDate must be a valid date in YYYY-MM-DD or YYYY/MM/DD format''"
| "valid_date_loop (date_format # date_formats) v =
     (case strptime v date_format of
        Inr parsed_date \<Rightarrow> Inr (strftime parsed_date)
      | Inl _ \<Rightarrow> valid_date_loop date_formats v)"

definition valid_date :: "string \<Rightarrow> string + string" where
  "valid_date v = valid_date_loop [''%Y-%m-%d'', ''%Y/%m/%d''] v"

definition valid_time :: "string \<Rightarrow> string + string" where
  "valid_time v =
     (case strptime v ''%H:%M'' of
        Inl _ \<Rightarrow> Inl ''purchaseTime must be a valid time in HH:MM format''
      | Inr _ \<Rightarrow> Inr v)"

definition valid_total :: "string \<Rightarrow> string + string" where
  "valid_total v =
     (if \<not> fullmatch_money v then Inl ''Total must be in XX.XX format'' else Inr v)"

text \<open>
  Validation of a request body. The library runs the validators of every field, the ones of
  one field in order until one fails, builds the model from what they return, and reports
  the failures of all fields together, each with its location; the web framework puts
  \<open>body\<close> in front of the location. \<open>validate\<close> is validation of a body that holds every
  field with a value of its declared type; \<open>validate_body\<close> below is validation of any body.
\<close>

datatype loc_part = Key string | Idx nat

record verror =
  loc :: "loc_part list"
  msg :: string

definition and_then :: "'e + 'a \<Rightarrow> ('a \<Rightarrow> 'e + 'b) \<Rightarrow> 'e + 'b" where
  "and_then r f = (case r of Inl e \<Rightarrow> Inl e | Inr v \<Rightarrow> f v)"

definition field_errors :: "loc_part list \<Rightarrow> string + 'a \<Rightarrow> verror list" where
  "field_errors l r = (case r of Inl m \<Rightarrow> [\<lparr>loc = l, msg = m\<rparr>] | Inr _ \<Rightarrow> [])"

definition errors_of :: "verror list + 'a \<Rightarrow> verror list" where
  "errors_of r = (case r of Inl es \<Rightarrow> es | Inr _ \<Rightarrow> [])"

definition validate_item :: "nat \<Rightarrow> item \<Rightarrow> verror list + item" where
  "validate_item i raw =
     (let d = and_then (min_length_1 (shortDescription raw)) description_not_empty;
          p = valid_price (price raw)
      in case (d, p) of
           (Inr d', Inr p') \<Rightarrow> Inr \<lparr>shortDescription = d', price = p'\<rparr>
         | _ \<Rightarrow>
             Inl (field_errors [Key ''body'', Key ''items'', Idx i, Key ''shortDescription''] d
                  @ field_errors [Key ''body'', Key ''items'', Idx i, Key ''price''] p))"

fun validate_items :: "nat \<Rightarrow> item list \<Rightarrow> verror list + item list" where
  "validate_items i [] = Inr []"
| "validate_items i (raw # raws) =
     (case (validate_item i raw, validate_items (Suc i) raws) of
        (Inr v, Inr vs) \<Rightarrow> Inr (v # vs)
      | (r, rs) \<Rightarrow> Inl (errors_of r @ errors_of rs))"

definition validate :: "receipt \<Rightarrow> verror list + receipt" where
  "validate raw =
     (let r = and_then (min_length_1 (retailer raw)) retailer_not_empty;
          d = valid_date (purchaseDate raw);
          t = valid_time (purchaseTime raw);
          its = validate_items 0 (items raw);
          tot = valid_total (total raw)
      in case (r, d, t, its, tot) of
           (Inr r', Inr d', Inr t', Inr its', Inr tot') \<Rightarrow>
             Inr \<lparr>retailer = r', purchaseDate = d', purchaseTime = t', items = its',
                  total = tot'\<rparr>
         | _ \<Rightarrow>
             Inl (field_errors [Key ''body'', Key ''retailer''] r
                  @ field_errors [Key ''body'', Key ''purchaseDate''] d
                  @ field_errors [Key ''body'', Key ''purchaseTime''] t
                  @ errors_of its
                  @ field_errors [Key ''body'', Key ''total''] tot))"

text \<open>
  A request body as it arrives. The library looks every declared field up in the body and
  checks its type before it runs the validators of the field: a field that is absent is
  reported as \<open>field required\<close>, and a value that the declared type refuses is reported
  with a message of the library. The body itself, and an element of \<open>items\<close>, can be refused
  in the same way when it is no object.
\<close>

datatype 'a typed = Refused string | Typed 'a

datatype 'a field = Missing | Present "'a typed"

record raw_item =
  raw_shortDescription :: "string field"
  raw_price :: "string field"

record raw_receipt =
  raw_retailer :: "string field"
  raw_purchaseDate :: "string field"
  raw_purchaseTime :: "string field"
  raw_items :: "raw_item typed list field"
  raw_total :: "string field"

definition check_field ::
  "loc_part list \<Rightarrow> 'a field \<Rightarrow> ('a \<Rightarrow> string + 'b) \<Rightarrow> verror list + 'b" where
  \<comment> \<open>one field: presence, type, then its validators; at most one error\<close>
  "check_field l f validators =
     (case f of
        Missing \<Rightarrow> Inl [\<lparr>loc = l, msg = ''field required''\<rparr>]
      | Present (Refused m) \<Rightarrow> Inl [\<lparr>loc = l, msg = m\<rparr>]
      | Present (Typed v) \<Rightarrow>
          (case validators v of
             Inl m \<Rightarrow> Inl [\<lparr>loc = l, msg = m\<rparr>]
           | Inr v' \<Rightarrow> Inr v'))"

fun validate_raw_item :: "nat \<Rightarrow> raw_item typed \<Rightarrow> verror list + item" where
  "validate_raw_item i (Refused m) = Inl [\<lparr>loc = [Key ''body'', Key ''items'', Idx i], msg = m\<rparr>]"
| "validate_raw_item i (Typed raw) =
     (let d = check_field [Key ''body'', Key ''items'', Idx i, Key ''shortDescription'']
                (raw_shortDescription raw)
                (\<lambda>v. and_then (min_length_1 v) description_not_empty);
          p = check_field [Key ''body'', Key ''items'', Idx i, Key ''price'']
                (raw_price raw) valid_price
      in case (d, p) of
           (Inr d', Inr p') \<Rightarrow> Inr \<lparr>shortDescription = d', price = p'\<rparr>
         | _ \<Rightarrow> Inl (errors_of d @ errors_of p))"

fun validate_raw_items :: "nat \<Rightarrow> raw_item typed list \<Rightarrow> verror list + item list" where
  "validate_raw_items i [] = Inr []"
| "validate_raw_items i (raw # raws) =
     (case (validate_raw_item i raw, validate_raw_items (Suc i) raws) of
        (Inr v, Inr vs) \<Rightarrow> Inr (v # vs)
      | (r, rs) \<Rightarrow> Inl (errors_of r @ errors_of rs))"

fun validate_body :: "raw_receipt typed \<Rightarrow> verror list + receipt" where
  "validate_body (Refused m) = Inl [\<lparr>loc = [Key ''body''], msg = m\<rparr>]"
| "validate_body (Typed raw) =
     (let r = check_field [Key ''body'', Key ''retailer''] (raw_retailer raw)
                (\<lambda>v. and_then (min_length_1 v) retailer_not_empty);
          d = check_field [Key ''body'', Key ''purchaseDate''] (raw_purchaseDate raw) valid_date;
          t = check_field [Key ''body'', Key ''purchaseTime''] (raw_purchaseTime raw) valid_time;
          its = (case raw_items raw of
                   Missing \<Rightarrow> Inl [\<lparr>loc = [Key ''body'', Key ''items''], msg = ''field required''\<rparr>]
                 | Present (Refused m) \<Rightarrow> Inl [\<lparr>loc = [Key ''body'', Key ''items''], msg = m\<rparr>]
                 | Present (Typed raws) \<Rightarrow> validate_raw_items 0 raws);
          tot = check_field [Key ''body'', Key ''total''] (raw_total raw) valid_total
      in case (r, d, t, its, tot) of
           (Inr r', Inr d', Inr t', Inr its', Inr tot') \<Rightarrow>
             Inr \<lparr>retailer = r', purchaseDate = d', purchaseTime = t', items = its',
                  total = tot'\<rparr>
         | _ \<Rightarrow>
             Inl (errors_of r @ errors_of d @ errors_of t @ errors_of its @ errors_of tot))"

definition raw_of_item :: "item \<Rightarrow> raw_item typed" where
  "raw_of_item it =
     Typed \<lparr>raw_shortDescription = Present (Typed (shortDescription it)),
            raw_price = Present (Typed (price it))\<rparr>"

definition raw_of :: "receipt \<Rightarrow> raw_receipt typed" where
  \<comment> \<open>the body that holds every field of a receipt, each of its declared type\<close>
  "raw_of r =
     Typed \<lparr>raw_retailer = Present (Typed (retailer r)),
            raw_purchaseDate = Present (Typed (purchaseDate r)),
            raw_purchaseTime = Present (Typed (purchaseTime r)),
            raw_items = Present (Typed (map raw_of_item (items r))),
            raw_total = Present (Typed (total r))\<rparr>"

section \<open>The scoring engine (\<open>calculate_points\<close>)\<close>

text \<open>
  \<open>calculate_points\<close> adds the points of seven rules to a counter. Each rule is a function
  here, in the order of the source; an exception of one rule ends the whole computation.
\<close>

definition retailer_points :: "string \<Rightarrow> int" where
  \<comment> \<open>\<open>sum(c.isalnum() for c in receipt.retailer)\<close>\<close>
  "retailer_points r = int (length (filter isalnum r))"

definition round_dollar_points :: "pyfloat \<Rightarrow> int" where
  "round_dollar_points total_float = (if is_integer total_float then 50 else 0)"

definition quarter_points :: "pyfloat \<Rightarrow> error + int" where
  \<comment> \<open>\<open>if total_float % 0.25 == 0: points += 25\<close>\<close>
  "quarter_points total_float =
     and_then (float_mod total_float float_0_25)
       (\<lambda>rem. Inr (if float_eq_0 rem then 25 else 0))"

definition pair_points :: "item list \<Rightarrow> int" where
  \<comment> \<open>\<open>(len(receipt.items) // 2) * 5\<close>\<close>
  "pair_points its = (int (length its) div 2) * 5"

definition item_points :: "item \<Rightarrow> error + int" where
  \<comment> \<open>the body of the loop over the items\<close>
  "item_points it =
     (let trimmed_length = length (strip (shortDescription it))
      in if trimmed_length mod 3 = 0
         then and_then (py_float (price it)) (\<lambda>p. math_ceil (float_mul p float_0_2))
         else Inr 0)"

fun items_points :: "item list \<Rightarrow> error + int" where
  "items_points [] = Inr 0"
| "items_points (it # its) =
     and_then (item_points it) (\<lambda>p. and_then (items_points its) (\<lambda>q. Inr (p + q)))"

definition day_points :: "string \<Rightarrow> error + int" where
  "day_points purchaseDate' =
     and_then (strptime purchaseDate' ''%Y-%m-%d'')
       (\<lambda>purchase_date. Inr (if day purchase_date mod 2 \<noteq> 0 then 6 else 0))"

definition afternoon_points :: "string \<Rightarrow> error + int" where
  "afternoon_points purchaseTime' =
     and_then (strptime purchaseTime' ''%H:%M'')
       (\<lambda>dt. let purchase_time = (hour dt, minute dt);
                 start_time = (14, 0);
                 end_time = (16, 0)
             in Inr (if time_lt start_time purchase_time \<and> time_lt purchase_time end_time
                     then 10 else 0))"

definition calculate_points :: "receipt \<Rightarrow> error + int" where
  "calculate_points receipt =
     and_then (py_float (total receipt)) (\<lambda>total_float.
     and_then (quarter_points total_float) (\<lambda>quarter.
     and_then (items_points (items receipt)) (\<lambda>descriptions.
     and_then (day_points (purchaseDate receipt)) (\<lambda>odd_day.
     and_then (afternoon_points (purchaseTime receipt)) (\<lambda>afternoon.
       Inr (retailer_points (retailer receipt) + round_dollar_points total_float + quarter
            + pair_points (items receipt) + descriptions + odd_day + afternoon))))))"

section \<open>The store and the request handlers (\<open>main.py\<close>)\<close>

type_synonym store = "string \<rightharpoonup> int"

datatype content =
    IdContent string
  | PointsContent int
  | ErrorContent string
  | ErrorListContent "string list"
  | InternalServerError

record response =
  status_code :: int
  content :: content

fun str_loc :: "loc_part \<Rightarrow> string" where
  "str_loc (Key k) = k"
| "str_loc (Idx i) = str_int (int i)"

fun join :: "string \<Rightarrow> string list \<Rightarrow> string" where
  "join sep [] = []"
| "join sep [x] = x"
| "join sep (x # y # zs) = x @ sep @ join sep (y # zs)"

definition error_message :: "verror \<Rightarrow> string" where
  \<comment> \<open>\<open>f"{'.'.join(map(str, error['loc'][1:]))}: {error['msg']}"\<close>\<close>
  "error_message error = join ''.'' (map str_loc (drop 1 (loc error))) @ '': '' @ msg error"

definition validation_exception_handler :: "verror list \<Rightarrow> response" where
  "validation_exception_handler errors =
     (let error_messages = map error_message errors
      in \<lparr>status_code = 400, content = ErrorListContent error_messages\<rparr>)"

definition process_receipt :: "store \<Rightarrow> string \<Rightarrow> receipt \<Rightarrow> store \<times> (error + response)" where
  \<comment> \<open>\<open>uuid\<close> is the value of \<open>str(uuid4())\<close> in this call. The score is computed before the
      store is written, so an exception leaves the store as it was.\<close>
  "process_receipt receipts uuid receipt =
     (let receipt_id = strip uuid
      in case calculate_points receipt of
           Inl e \<Rightarrow> (receipts, Inl e)
         | Inr points \<Rightarrow>
             (receipts(receipt_id \<mapsto> points),
              Inr \<lparr>status_code = 200, content = IdContent receipt_id\<rparr>))"

definition get_points :: "store \<Rightarrow> string \<Rightarrow> response" where
  "get_points receipts receipt_id =
     (case receipts receipt_id of
        None \<Rightarrow> \<lparr>status_code = 404, content = ErrorContent ''No receipt found for that ID.''\<rparr>
      | Some points \<Rightarrow> \<lparr>status_code = 200, content = PointsContent points\<rparr>)"

text \<open>
  The two routes as the framework serves them: the body of a submission is validated first
  and the handler runs on the validated receipt only; an exception that escapes a handler
  is answered with status 500.
\<close>

datatype request = Submit string receipt | Retrieve string

fun serve :: "store \<Rightarrow> request \<Rightarrow> store \<times> response" where
  "serve receipts (Submit uuid body) =
     (case validate body of
        Inl errors \<Rightarrow> (receipts, validation_exception_handler errors)
      | Inr receipt \<Rightarrow>
          (case process_receipt receipts uuid receipt of
             (receipts', Inr resp) \<Rightarrow> (receipts', resp)
           | (receipts', Inl e) \<Rightarrow>
               (receipts', \<lparr>status_code = 500, content = InternalServerError\<rparr>)))"
| "serve receipts (Retrieve receipt_id) = (receipts, get_points receipts receipt_id)"

definition submit :: "store \<Rightarrow> string \<Rightarrow> raw_receipt typed \<Rightarrow> store \<times> response" where
  \<comment> \<open>the route of submissions on any body; \<open>serve\<close> is this route on the bodies \<open>raw_of r\<close>\<close>
  "submit receipts uuid body =
     (case validate_body body of
        Inl errors \<Rightarrow> (receipts, validation_exception_handler errors)
      | Inr receipt \<Rightarrow>
          (case process_receipt receipts uuid receipt of
             (receipts', Inr resp) \<Rightarrow> (receipts', resp)
           | (receipts', Inl e) \<Rightarrow>
               (receipts', \<lparr>status_code = 500, content = InternalServerError\<rparr>)))"

section \<open>What the specification says, and the inputs of the examples\<close>

definition price_cents :: "string \<Rightarrow> int" where
  \<comment> \<open>the exact value in cents of an amount \<open>\d+\.\d{2}\<close>: its digits read as one number\<close>
  "price_cents v = int_of_digits (filter (\<lambda>c. c \<noteq> CHR ''.'') v)"

definition ceil_div :: "int \<Rightarrow> int \<Rightarrow> int" where
  \<comment> \<open>the exact \<open>ceil(a / b)\<close> for \<open>b > 0\<close>\<close>
  "ceil_div a b = - ((- a) div b)"

definition example_1 :: receipt where
  "example_1 =
     \<lparr>retailer = ''Target'', purchaseDate = ''2022-01-01'', purchaseTime = ''13:01'',
      items = [\<lparr>shortDescription = ''Mountain Dew 12PK'', price = ''6.49''\<rparr>,
               \<lparr>shortDescription = ''Emils Cheese Pizza'', price = ''12.25''\<rparr>,
               \<lparr>shortDescription = ''Knorr Creamy Chicken'', price = ''1.26''\<rparr>,
               \<lparr>shortDescription = ''Doritos Nacho Cheese'', price = ''3.35''\<rparr>,
               \<lparr>shortDescription = ''   Klarbrunn 12-PK 12 FL OZ  '', price = ''12.00''\<rparr>],
      total = ''35.35''\<rparr>"

definition drift_item :: item where
  \<comment> \<open>a price of 47 bits of dollars: its cents are lost when it becomes a float\<close>
  "drift_item = \<lparr>shortDescription = ''abc'', price = ''140737488355330.01''\<rparr>"

definition huge_amount :: string where
  \<comment> \<open>the amount \<open>10 ^ 309\<close> dollars, written out: above every finite float\<close>
  "huge_amount = CHR ''1'' # replicate 309 CHR ''0'' @ ''.00''"

definition huge_total_receipt :: receipt where
  "huge_total_receipt =
     \<lparr>retailer = ''Target'', purchaseDate = ''2022-01-01'', purchaseTime = ''13:01'',
      items = [], total = huge_amount\<rparr>"

definition huge_price_receipt :: receipt where
  "huge_price_receipt =
     \<lparr>retailer = ''Target'', purchaseDate = ''2022-01-01'', purchaseTime = ''13:01'',
      items = [\<lparr>shortDescription = ''abc'', price = huge_amount\<rparr>], total = ''35.35''\<rparr>"

definition blank :: "string \<Rightarrow> bool" where
  \<comment> \<open>"empty or entirely whitespace"\<close>
  "blank v \<longleftrightarrow> list_all isspace v"

definition two_decimals :: "string \<Rightarrow> bool" where
  \<comment> \<open>"a non-negative integer part followed by a literal decimal point and exactly two
      digits"\<close>
  "two_decimals v \<longleftrightarrow>
     (let n = length v
      in 4 \<le> n \<and> list_all is_digit (take (n - 3) v) \<and> v ! (n - 3) = CHR ''.''
         \<and> is_digit (v ! (n - 2)) \<and> is_digit (v ! (n - 1)))"

definition parses_as_date :: "string \<Rightarrow> bool" where
  \<comment> \<open>"must parse under \<open>YYYY-MM-DD\<close> or \<open>YYYY/MM/DD\<close>"\<close>
  "parses_as_date v \<longleftrightarrow> parse_date CHR ''-'' v \<noteq> None \<or> parse_date CHR ''/'' v \<noteq> None"

definition parses_as_time :: "string \<Rightarrow> bool" where
  \<comment> \<open>"must parse as 24-hour \<open>HH:MM\<close>"\<close>
  "parses_as_time v \<longleftrightarrow> parse_time v \<noteq> None"

definition iso_date :: "string \<Rightarrow> bool" where
  \<comment> \<open>the shape \<open>YYYY-MM-DD\<close>: four digits, two digits and two digits between hyphens\<close>
  "iso_date s \<longleftrightarrow>
     (case s of
        [y1, y2, y3, y4, h1, m1, m2, h2, d1, d2] \<Rightarrow>
          list_all is_digit [y1, y2, y3, y4, m1, m2, d1, d2] \<and> h1 = CHR ''-'' \<and> h2 = CHR ''-''
      | _ \<Rightarrow> False)"

definition field_violation ::
  "loc_part list \<Rightarrow> 'a field \<Rightarrow> ('a \<Rightarrow> bool) \<Rightarrow> loc_part list list" where
  \<comment> \<open>a field is in violation when it is missing, of a wrong type, or breaks its rule; it
      counts once, by its path\<close>
  "field_violation path f broken =
     (case f of
        Missing \<Rightarrow> [path]
      | Present (Refused _) \<Rightarrow> [path]
      | Present (Typed v) \<Rightarrow> if broken v then [path] else [])"

fun item_violations :: "nat \<Rightarrow> raw_item typed list \<Rightarrow> loc_part list list" where
  \<comment> \<open>the violations inside \<open>items\<close>, in the order of the submission\<close>
  "item_violations i [] = []"
| "item_violations i (Refused m # its) = [Key ''items'', Idx i] # item_violations (Suc i) its"
| "item_violations i (Typed it # its) =
     field_violation [Key ''items'', Idx i, Key ''shortDescription''] (raw_shortDescription it) blank
     @ field_violation [Key ''items'', Idx i, Key ''price''] (raw_price it)
         (\<lambda>v. \<not> two_decimals v)
     @ item_violations (Suc i) its"

fun violations :: "raw_receipt typed \<Rightarrow> loc_part list list" where
  \<comment> \<open>the violations of a submission, one entry for each, by their paths\<close>
  "violations (Refused m) = [ []]"
| "violations (Typed raw) =
     field_violation [Key ''retailer''] (raw_retailer raw) blank
     @ field_violation [Key ''purchaseDate''] (raw_purchaseDate raw) (\<lambda>v. \<not> parses_as_date v)
     @ field_violation [Key ''purchaseTime''] (raw_purchaseTime raw) (\<lambda>v. \<not> parses_as_time v)
     @ (case raw_items raw of
          Missing \<Rightarrow> [ [Key ''items'']]
        | Present (Refused _) \<Rightarrow> [ [Key ''items'']]
        | Present (Typed its) \<Rightarrow> item_violations 0 its)
     @ field_violation [Key ''total''] (raw_total raw) (\<lambda>v. \<not> two_decimals v)"


definition bad_body :: "raw_receipt typed" where
  \<comment> \<open>a submission with six violations: no retailer, a date that does not parse, a list as
      the time, an element of \<open>items\<close> that is no object, an item without a price, and a total
      with one decimal\<close>
  "bad_body =
     Typed \<lparr>raw_retailer = Missing,
            raw_purchaseDate = Present (Typed ''2022-02-30''),
            raw_purchaseTime = Present (Refused ''str type expected''),
            raw_items = Present (Typed
              [Refused ''value is not a valid dict'',
               Typed \<lparr>raw_shortDescription = Present (Typed ''Gatorade''), raw_price = Missing\<rparr>,
               Typed \<lparr>raw_shortDescription = Present (Typed ''Gatorade''),
                      raw_price = Present (Typed ''2.25'')\<rparr>]),
            raw_total = Present (Typed ''9.0'')\<rparr>"

definition short_year_receipt :: receipt where
  \<comment> \<open>a submission dated in the year 999\<close>
  "short_year_receipt =
     \<lparr>retailer = ''Target'', purchaseDate = ''0999-01-01'', purchaseTime = ''13:01'',
      items = [], total = ''35.35''\<rparr>"


text \<open>
  A run of the service: the requests it serves one after the other, from a given store, and
  the identifiers its successful submissions hand out.
\<close>

fun run :: "store \<Rightarrow> request list \<Rightarrow> store" where
  "run receipts [] = receipts"
| "run receipts (rq # rqs) = run (fst (serve receipts rq)) rqs"

fun issued_id :: "request \<Rightarrow> response \<Rightarrow> string set" where
  "issued_id (Submit uuid body) resp = (case content resp of IdContent i \<Rightarrow> {i} | _ \<Rightarrow> {})"
| "issued_id (Retrieve receipt_id) resp = {}"

fun issued :: "store \<Rightarrow> request list \<Rightarrow> string set" where
  "issued receipts [] = {}"
| "issued receipts (rq # rqs) =
     issued_id rq (snd (serve receipts rq)) \<union> issued (fst (serve receipts rq)) rqs"

section \<open>The examples, evaluated\<close>

lemma example_1_valid: "validate example_1 = Inr example_1"
  by code_simp

lemma example_1_score: "calculate_points example_1 = Inr 28"
  by code_simp


section \<open>Characters and digits\<close>

lemma ord_literals:
  "ord CHR ''0'' = 48" "ord CHR ''1'' = 49" "ord CHR ''2'' = 50" "ord CHR ''3'' = 51"
  "ord CHR ''5'' = 53" "ord CHR ''9'' = 57" "ord CHR ''-'' = 45" "ord CHR '' '' = 32"
  "ord CHR ''/'' = 47" "ord CHR '':'' = 58" "ord CHR ''.'' = 46"
  by (simp_all add: ord_def)

lemma digit_val_range: "is_digit c \<Longrightarrow> 0 \<le> digit_val c \<and> digit_val c \<le> 9"
  by (simp add: is_digit_def digit_val_def)

lemma ord_digit_char: "0 \<le> k \<Longrightarrow> k \<le> 9 \<Longrightarrow> ord (digit_char k) = 48 + k"
  by (simp add: ord_def digit_char_def)

lemma is_digit_digit_char: "0 \<le> k \<Longrightarrow> k \<le> 9 \<Longrightarrow> is_digit (digit_char k)"
  by (simp add: is_digit_def ord_digit_char)

lemma digit_val_digit_char: "0 \<le> k \<Longrightarrow> k \<le> 9 \<Longrightarrow> digit_val (digit_char k) = k"
  by (simp add: digit_val_def ord_digit_char)

lemma digit_char_eq_iff: "0 \<le> k \<Longrightarrow> k \<le> 9 \<Longrightarrow> digit_char k = c \<longleftrightarrow> ord c = 48 + k"
  by (auto simp: digit_char_def ord_def char_of_eq_iff take_bit_eq_mod)

lemma in_range_digit_char:
  "0 \<le> k \<Longrightarrow> k \<le> 9 \<Longrightarrow>
     in_range lo hi (digit_char k) \<longleftrightarrow> ord lo \<le> 48 + k \<and> 48 + k \<le> ord hi"
  by (simp add: in_range_def ord_digit_char)

lemma is_digit_not_hyphen: "is_digit c \<Longrightarrow> c \<noteq> CHR ''-''"
  by (auto simp: is_digit_def ord_def)

lemma two_digits:
  fixes n :: int
  assumes "0 \<le> n" "n \<le> 99"
  shows "0 \<le> n div 10 \<and> n div 10 \<le> 9 \<and> n div 10 mod 10 = n div 10
         \<and> 0 \<le> n mod 10 \<and> n mod 10 \<le> 9 \<and> n = 10 * (n div 10) + n mod 10"
  using assms by auto

lemma four_digits:
  fixes y :: int
  assumes "0 \<le> y" "y \<le> 9999"
  shows "1000 * (y div 1000 mod 10) + 100 * (y div 100 mod 10) + 10 * (y div 10 mod 10)
         + y mod 10 = y"
proof -
  have a: "y div 100 = y div 10 div 10"
    using zdiv_zmult2_eq [of 10 y 10] by simp
  have b: "y div 1000 = y div 10 div 10 div 10"
    using zdiv_zmult2_eq [of 10 "y div 10" 10] zdiv_zmult2_eq [of 100 y 10] a by simp
  have c: "y div 10 div 10 div 10 mod 10 = y div 10 div 10 div 10"
    using assms by simp
  have "y = 10 * (y div 10) + y mod 10" by simp
  moreover have "y div 10 = 10 * (y div 10 div 10) + y div 10 mod 10" by simp
  moreover have "y div 10 div 10 = 10 * (y div 10 div 10 div 10) + y div 10 div 10 mod 10"
    by simp
  ultimately show ?thesis unfolding a b c by linarith
qed

lemma int_of_digits_4:
  "int_of_digits [a, b, c, d]
     = 1000 * digit_val a + 100 * digit_val b + 10 * digit_val c + digit_val d"
  by (simp add: int_of_digits_def)

section \<open>What \<open>strptime\<close> reads\<close>

lemma group_m_range: "group_m s = Some m \<Longrightarrow> 1 \<le> m \<and> m \<le> 12"
  by (erule group_m.elims)
     (auto simp: in_range_def is_digit_def digit_val_def ord_def split: if_splits)

lemma group_d_range: "group_d s = Some d \<Longrightarrow> 1 \<le> d \<and> d \<le> 31"
  by (erule group_d.elims)
     (auto simp: in_range_def is_digit_def digit_val_def ord_def split: if_splits)

lemma group_H_range: "group_H s = Some h \<Longrightarrow> 0 \<le> h \<and> h < 24"
  by (erule group_H.elims)
     (auto simp: in_range_def is_digit_def digit_val_def ord_def split: if_splits)

lemma group_M_range: "group_M s = Some m \<Longrightarrow> 0 \<le> m \<and> m < 60"
  by (erule group_M.elims)
     (auto simp: in_range_def is_digit_def digit_val_def ord_def split: if_splits)

lemma group_m_pad2:
  assumes "1 \<le> m" "m \<le> 12"
  shows "group_m (pad2 m) = Some m"
proof -
  define q where "q = m div 10"
  define r where "r = m mod 10"
  from assms have m: "0 \<le> q" "q \<le> 9" "m div 10 mod 10 = q" "0 \<le> r" "r \<le> 9" "m = 10 * q + r"
    using two_digits [of m] by (simp_all add: q_def r_def)
  from assms m have "q = 0 \<and> 1 \<le> r \<or> q = 1 \<and> r \<le> 2" by arith
  with m show ?thesis
    unfolding pad2_def m(3) r_def [symmetric]
    by (auto simp: digit_char_eq_iff in_range_digit_char digit_val_digit_char ord_literals)
qed

lemma group_d_pad2:
  assumes "1 \<le> d" "d \<le> 31"
  shows "group_d (pad2 d) = Some d"
proof -
  define q where "q = d div 10"
  define r where "r = d mod 10"
  from assms have m: "0 \<le> q" "q \<le> 9" "d div 10 mod 10 = q" "0 \<le> r" "r \<le> 9" "d = 10 * q + r"
    using two_digits [of d] by (simp_all add: q_def r_def)
  from assms m have "q = 0 \<and> 1 \<le> r \<or> q = 1 \<or> q = 2 \<or> q = 3 \<and> r \<le> 1" by arith
  with m show ?thesis
    unfolding pad2_def m(3) r_def [symmetric]
    by (auto simp: digit_char_eq_iff in_range_digit_char digit_val_digit_char
          is_digit_digit_char ord_literals)
qed

lemma days_in_month_le: "days_in_month y m \<le> 31"
  by (simp add: days_in_month_def)

lemma pad2_digits: "0 \<le> n \<Longrightarrow> list_all is_digit (pad2 n)"
  by (simp add: pad2_def is_digit_digit_char)

lemma parse_date_SomeD:
  assumes "parse_date sep s = Some d"
  obtains y1 y2 y3 y4 rest x ds m dd where
    "s = y1 # y2 # y3 # y4 # sep # rest"
    "is_digit y1" "is_digit y2" "is_digit y3" "is_digit y4"
    "dropWhile (\<lambda>x. x \<noteq> sep) rest = x # ds"
    "group_m (takeWhile (\<lambda>x. x \<noteq> sep) rest) = Some m"
    "group_d ds = Some dd"
    "1 \<le> int_of_digits [y1, y2, y3, y4]"
    "dd \<le> days_in_month (int_of_digits [y1, y2, y3, y4]) m"
    "d = \<lparr>year = int_of_digits [y1, y2, y3, y4], month = m, day = dd, hour = 0, minute = 0\<rparr>"
  using assms
  by (auto simp: parse_date_def Let_def split: list.splits if_splits option.splits)

lemma parse_date_range:
  assumes "parse_date sep s = Some d"
  shows "1 \<le> year d \<and> year d \<le> 9999 \<and> 1 \<le> month d \<and> month d \<le> 12
         \<and> 1 \<le> day d \<and> day d \<le> days_in_month (year d) (month d)
         \<and> hour d = 0 \<and> minute d = 0"
proof -
  from assms obtain y1 y2 y3 y4 rest x ds m dd where
    dg: "is_digit y1" "is_digit y2" "is_digit y3" "is_digit y4"
    and m: "group_m (takeWhile (\<lambda>x. x \<noteq> sep) rest) = Some m"
    and dd: "group_d ds = Some dd"
    and y: "1 \<le> int_of_digits [y1, y2, y3, y4]"
    and le: "dd \<le> days_in_month (int_of_digits [y1, y2, y3, y4]) m"
    and d: "d = \<lparr>year = int_of_digits [y1, y2, y3, y4], month = m, day = dd,
                 hour = 0, minute = 0\<rparr>"
    by (rule parse_date_SomeD)
  from dg have "int_of_digits [y1, y2, y3, y4] \<le> 9999"
    using digit_val_range [of y1] digit_val_range [of y2] digit_val_range [of y3]
      digit_val_range [of y4]
    by (simp add: int_of_digits_4)
  with group_m_range [OF m] group_d_range [OF dd] y le d show ?thesis by simp
qed

section \<open>The purchase date\<close>

lemma str_int_year:
  assumes "1000 \<le> y" "y \<le> 9999"
  shows "str_int y = [digit_char (y div 1000 mod 10), digit_char (y div 100 mod 10),
                      digit_char (y div 10 mod 10), digit_char (y mod 10)]"
proof -
  have h: "y div 10 div 10 = y div 100" "y div 100 div 10 = y div 1000"
    using zdiv_zmult2_eq [of 10 y 10] zdiv_zmult2_eq [of 10 y 100] by simp_all
  have "1000 div 10 \<le> y div 10" "1000 div 100 \<le> y div 100" "y div 1000 \<le> 9999 div 1000"
    "1000 div 1000 \<le> y div 1000"
    using assms by (intro zdiv_mono1; simp)+
  with assms(1) have g: "\<not> y < 10" "\<not> y div 10 < 10" "\<not> y div 100 < 10" "y div 1000 < 10"
    "0 \<le> y div 1000"
    by simp_all
  have a: "str_int y = str_int (y div 10) @ [digit_char (y mod 10)]"
    using g(1) by (simp add: str_int.simps [of y])
  have b: "str_int (y div 10) = str_int (y div 100) @ [digit_char (y div 10 mod 10)]"
    using g(2) by (simp add: str_int.simps [of "y div 10"] h)
  have c: "str_int (y div 100) = str_int (y div 1000) @ [digit_char (y div 100 mod 10)]"
    using g(3) by (simp add: str_int.simps [of "y div 100"] h)
  have d: "str_int (y div 1000) = [digit_char (y div 1000)]"
    using g(4) by (simp add: str_int.simps [of "y div 1000"])
  from g(4,5) have "y div 1000 mod 10 = y div 1000" by simp
  then show ?thesis by (simp add: a b c d)
qed

lemma parse_date_strftime:
  assumes "1000 \<le> year d" "year d \<le> 9999" "1 \<le> month d" "month d \<le> 12"
    "1 \<le> day d" "day d \<le> days_in_month (year d) (month d)" "hour d = 0" "minute d = 0"
  shows "parse_date CHR ''-'' (strftime d) = Some d"
proof -
  define y where "y = year d"
  define c1 where "c1 = digit_char (y div 1000 mod 10)"
  define c2 where "c2 = digit_char (y div 100 mod 10)"
  define c3 where "c3 = digit_char (y div 10 mod 10)"
  define c4 where "c4 = digit_char (y mod 10)"
  define rest where "rest = pad2 (month d) @ CHR ''-'' # pad2 (day d)"
  have dd: "day d \<le> 31"
    using assms(6) days_in_month_le [of "year d" "month d"] by linarith
  have dg: "is_digit c1" "is_digit c2" "is_digit c3" "is_digit c4"
    by (simp_all add: c1_def c2_def c3_def c4_def is_digit_digit_char)
  have s: "strftime d = c1 # c2 # c3 # c4 # CHR ''-'' # rest"
    using str_int_year [of "year d"] assms(1,2)
    by (simp add: strftime_def y_def rest_def c1_def c2_def c3_def c4_def)
  have "int_of_digits [c1, c2, c3, c4]
          = 1000 * (y div 1000 mod 10) + 100 * (y div 100 mod 10) + 10 * (y div 10 mod 10)
            + y mod 10"
    by (simp add: int_of_digits_4 c1_def c2_def c3_def c4_def digit_val_digit_char)
  also have "\<dots> = y"
    using assms(1,2) unfolding y_def by (intro four_digits) simp_all
  finally have yv: "int_of_digits [c1, c2, c3, c4] = year d"
    by (simp add: y_def)
  have nh: "\<forall>c \<in> set (pad2 (month d)). c \<noteq> CHR ''-''"
    using pad2_digits [of "month d"] assms(3) is_digit_not_hyphen
    by (auto simp: list_all_iff)
  have tw: "takeWhile (\<lambda>x. x \<noteq> CHR ''-'') rest = pad2 (month d)"
    using nh by (simp add: rest_def takeWhile_append2)
  have dw: "dropWhile (\<lambda>x. x \<noteq> CHR ''-'') rest = CHR ''-'' # pad2 (day d)"
    using nh by (simp add: rest_def dropWhile_append2)
  have gm: "group_m (pad2 (month d)) = Some (month d)"
    using assms(3,4) by (rule group_m_pad2)
  have gd: "group_d (pad2 (day d)) = Some (day d)"
    using assms(5) dd by (rule group_d_pad2)
  have "parse_date CHR ''-'' (c1 # c2 # c3 # c4 # CHR ''-'' # rest)
          = Some \<lparr>year = year d, month = month d, day = day d, hour = 0, minute = 0\<rparr>"
    using assms(1,6) by (simp add: parse_date_def dg yv tw dw gm gd)
  then show ?thesis
    using assms(7,8) by (simp add: s)
qed

lemma iso_date_strftime:
  assumes "1000 \<le> year d" "year d \<le> 9999" "0 \<le> month d" "0 \<le> day d"
  shows "iso_date (strftime d)"
  using assms str_int_year [of "year d"]
  by (simp add: iso_date_def strftime_def pad2_def is_digit_digit_char)

lemma strptime_dash:
  "strptime v ''%Y-%m-%d''
     = (case parse_date CHR ''-'' v of None \<Rightarrow> Inl ValueError | Some d \<Rightarrow> Inr d)"
  by (simp add: strptime_def)

lemma strptime_slash:
  "strptime v ''%Y/%m/%d''
     = (case parse_date CHR ''/'' v of None \<Rightarrow> Inl ValueError | Some d \<Rightarrow> Inr d)"
  by (simp add: strptime_def)

lemma valid_date_cases:
  "valid_date v =
     (case parse_date CHR ''-'' v of
        Some d \<Rightarrow> Inr (strftime d)
      | None \<Rightarrow>
          (case parse_date CHR ''/'' v of
             Some d \<Rightarrow> Inr (strftime d)
           | None \<Rightarrow>
               Inl ''purchaseDate must be a valid date in YYYY-MM-DD or YYYY/MM/DD format''))"
  by (simp add: valid_date_def strptime_dash strptime_slash split: option.splits)

lemma validate_purchaseDate:
  "validate raw = Inr r \<Longrightarrow> valid_date (purchaseDate raw) = Inr (purchaseDate r)"
  by (auto simp: validate_def Let_def split: sum.splits)

text \<open>
  What holds of the validator of the date. It succeeds exactly when the string parses
  under one of the two formats, and returns what \<open>strftime\<close> writes for the parsed date.
  When the year is 1000 or later, that has the shape \<open>YYYY-MM-DD\<close> and reads back as the
  same date.
\<close>

lemma valid_date_accepts:
  "((\<exists>s. valid_date v = Inr s)
      \<longleftrightarrow> (\<exists>d. strptime v ''%Y-%m-%d'' = Inr d \<or> strptime v ''%Y/%m/%d'' = Inr d))
   \<and> (\<forall>s. valid_date v = Inr s \<longrightarrow>
        (\<exists>d. (strptime v ''%Y-%m-%d'' = Inr d \<or> strptime v ''%Y/%m/%d'' = Inr d)
           \<and> s = strftime d
           \<and> (1000 \<le> year d \<longrightarrow> iso_date s \<and> strptime s ''%Y-%m-%d'' = Inr d)))
   \<and> ((\<forall>d. strptime v ''%Y-%m-%d'' \<noteq> Inr d \<and> strptime v ''%Y/%m/%d'' \<noteq> Inr d) \<longrightarrow>
        valid_date v
          = Inl ''purchaseDate must be a valid date in YYYY-MM-DD or YYYY/MM/DD format'')"
proof -
  have norm: "1000 \<le> year d \<longrightarrow> iso_date (strftime d) \<and> strptime (strftime d) ''%Y-%m-%d'' = Inr d"
    if "parse_date sep v = Some d" for sep d
  proof -
    from parse_date_range [OF that] show ?thesis
      by (simp add: iso_date_strftime parse_date_strftime strptime_dash)
  qed
  show ?thesis
  proof (cases "parse_date CHR ''-'' v")
    case (Some d)
    with norm [OF Some] show ?thesis
      by (auto simp: valid_date_cases strptime_dash)
  next
    case None
    show ?thesis
    proof (cases "parse_date CHR ''/'' v")
      case (Some d)
      with None norm [OF Some] show ?thesis
        by (auto simp: valid_date_cases strptime_dash strptime_slash)
    next
      case n: None
      with None show ?thesis
        by (auto simp: valid_date_cases strptime_dash strptime_slash)
    qed
  qed
qed

text \<open>
  C5. The claim: validation of a \<open>purchaseDate\<close> succeeds exactly when the string parses
  under one of the two formats, and the date kept is then the normalized \<open>YYYY-MM-DD\<close> form
  of the parsed date. The first half holds (\<open>valid_date_accepts\<close>). The date
  \<open>0999-01-01\<close> parses as the first day of the year 999; the validator returns
  \<open>999-01-01\<close> for it, which has no \<open>YYYY-MM-DD\<close> shape, and the validated receipt keeps
  that string. \<open>calculate_points\<close> reads the date of the receipt under \<open>%Y-%m-%d\<close>, which
  refuses it, and raises \<open>ValueError\<close>.
\<close>

theorem valid_date_short_year:
  "strptime ''0999-01-01'' ''%Y-%m-%d''
     = Inr \<lparr>year = 999, month = 1, day = 1, hour = 0, minute = 0\<rparr>
   \<and> valid_date ''0999-01-01'' = Inr ''999-01-01''
   \<and> \<not> iso_date ''999-01-01''
   \<and> validate short_year_receipt = Inr (short_year_receipt\<lparr>purchaseDate := ''999-01-01''\<rparr>)
   \<and> strptime ''999-01-01'' ''%Y-%m-%d'' = Inl ValueError
   \<and> calculate_points (short_year_receipt\<lparr>purchaseDate := ''999-01-01''\<rparr>) = Inl ValueError"
  by code_simp

section \<open>The scoring rules on floats\<close>

text \<open>
  Two facts about the rules on the total. A float that is a whole number leaves no
  remainder by 0.25, so the 50 points never come without the 25. And a total with no cents
  whose float is finite is a whole number as a float, so it gets both.
\<close>

lemma float_0_25_value: "float_0_25 = Finite (2 ^ 52) (- 54)"
  by code_simp

lemma quarter_of_integer:
  assumes "is_integer f"
  shows "quarter_points f = Inr 25"
proof (cases f)
  case (Finite m e)
  with assms have int: "0 \<le> e \<or> (2::int) ^ nat (- e) dvd m"
    by (simp add: mod_eq_0_iff_dvd)
  have "(2::int) ^ 52 * 2 ^ nat (- 54 - min e (- 54)) dvd m * 2 ^ nat (e - min e (- 54))"
  proof (cases "- 54 \<le> e")
    case True
    then have mn: "min e (- 54) = - 54" by simp
    have "(2::int) ^ 52 dvd m * 2 ^ nat (e + 54)"
    proof (cases "0 \<le> e")
      case True
      then have "52 \<le> nat (e + 54)" by simp
      then have "(2::int) ^ 52 dvd 2 ^ nat (e + 54)" by (rule le_imp_power_dvd)
      then show ?thesis by (rule dvd_mult)
    next
      case False
      with int obtain j where j: "m = 2 ^ nat (- e) * j" by (auto elim: dvdE)
      from False True have "nat (- e) + nat (e + 54) = 54" by simp
      then have "m * 2 ^ nat (e + 54) = j * 2 ^ 54"
        by (simp add: j power_add [symmetric] mult.assoc mult.left_commute)
      moreover have "(2::int) ^ 52 dvd j * 2 ^ 54"
        by (rule dvd_mult) (rule le_imp_power_dvd, simp)
      ultimately show ?thesis by simp
    qed
    with mn show ?thesis by simp
  next
    case False
    then have mn: "min e (- 54) = e" by simp
    from False int have d: "(2::int) ^ nat (- e) dvd m" by simp
    have "(2::int) ^ 52 * 2 ^ nat (- 54 - e) = 2 ^ (52 + nat (- 54 - e))"
      by (simp add: power_add)
    moreover from False have "52 + nat (- 54 - e) \<le> nat (- e)" by simp
    then have "(2::int) ^ (52 + nat (- 54 - e)) dvd 2 ^ nat (- e)" by (rule le_imp_power_dvd)
    ultimately have "(2::int) ^ 52 * 2 ^ nat (- 54 - e) dvd m"
      using d by (metis dvd_trans)
    with mn show ?thesis by simp
  qed
  then have "(m * 2 ^ nat (e - min e (- 54))) mod (2 ^ 52 * 2 ^ nat (- 54 - min e (- 54))) = 0"
    by (simp add: mod_eq_0_iff_dvd)
  with Finite show ?thesis
    by (simp add: quarter_points_def float_0_25_value and_then_def Let_def)
next
  case Infinity
  with assms show ?thesis by simp
next
  case NaN
  with assms show ?thesis by simp
qed

lemma round_frac_whole:
  assumes "round_frac (100 * N) 100 = Finite m u"
  shows "is_integer (Finite m u)"
proof (cases "N = 0")
  case True
  with assms show ?thesis by (simp add: round_frac_def)
next
  case False
  define e where "e = (if scaled_le 100 (bitlen (100 * N) - bitlen 100) (100 * N)
                       then bitlen (100 * N) - bitlen 100
                       else bitlen (100 * N) - bitlen 100 - 1)"
  define v where "v = max (e - 52) (- 1074)"
  show ?thesis
  proof (cases "v < 0")
    case True
    have "(100 * N * 2 ^ nat (- v)) div 100 = N * 2 ^ nat (- v)"
      and "(100 * N * 2 ^ nat (- v)) mod 100 = 0"
      by (simp_all add: mult.assoc)
    with assms False True have "u = v \<and> m = N * 2 ^ nat (- v)"
      by (auto simp: round_frac_def Let_def e_def [symmetric] v_def [symmetric]
            split: if_splits)
    then show ?thesis by simp
  next
    case False
    with assms \<open>N \<noteq> 0\<close> have "u = v"
      by (simp add: round_frac_def Let_def e_def [symmetric] v_def [symmetric]
            split: if_splits)
    with False show ?thesis by simp
  qed
qed

lemma fullmatch_moneyD:
  assumes "fullmatch_money v"
  obtains ip a b where "v = ip @ [CHR ''.'', a, b]" "ip \<noteq> []" "list_all is_digit ip"
    "is_digit a" "is_digit b"
proof -
  from assms obtain b a rip where r: "rev v = b # a # CHR ''.'' # rip"
    and d: "is_digit b" "is_digit a" "rip \<noteq> []" "list_all is_digit rip"
    by (auto simp: fullmatch_money_def split: list.splits)
  from r have "rev (rev v) = rev (b # a # CHR ''.'' # rip)" by simp
  then have "v = rev rip @ [CHR ''.'', a, b]" by simp
  with d show ?thesis by (intro that [of "rev rip" a b]) simp_all
qed

lemma is_digit_not_point: "is_digit c \<Longrightarrow> c \<noteq> CHR ''.''"
  by (auto simp: is_digit_def ord_def)

lemma py_float_money:
  assumes "fullmatch_money v"
  shows "py_float v = Inr (round_frac (price_cents v) 100)"
proof -
  from assms obtain ip a b where v: "v = ip @ [CHR ''.'', a, b]" and ne: "ip \<noteq> []"
    and dg: "list_all is_digit ip" "is_digit a" "is_digit b"
    by (rule fullmatch_moneyD)
  from dg have np: "\<forall>c \<in> set ip. c \<noteq> CHR ''.''" "a \<noteq> CHR ''.''" "b \<noteq> CHR ''.''"
    using is_digit_not_point by (auto simp: list_all_iff)
  then have tw: "takeWhile (\<lambda>c. c \<noteq> CHR ''.'') v = ip"
    and dw: "dropWhile (\<lambda>c. c \<noteq> CHR ''.'') v = [CHR ''.'', a, b]"
    by (simp_all add: v takeWhile_append2 dropWhile_append2)
  from np have "filter (\<lambda>c. c \<noteq> CHR ''.'') v = ip @ [a, b]"
    by (simp add: v filter_id_conv)
  then have pc: "price_cents v = int_of_digits (ip @ [a, b])"
    by (simp add: price_cents_def)
  show ?thesis
    using ne dg by (simp add: py_float_def tw dw pc)
qed

lemma round_total_both_bonuses:
  assumes "fullmatch_money t" "price_cents t mod 100 = 0" "py_float t = Inr (Finite m e)"
  shows "round_dollar_points (Finite m e) = 50 \<and> quarter_points (Finite m e) = Inr 25"
proof -
  from assms(2) obtain N where N: "price_cents t = 100 * N"
    by (auto simp: mod_eq_0_iff_dvd elim: dvdE)
  from assms(1,3) have "round_frac (100 * N) 100 = Finite m e"
    by (simp add: py_float_money N)
  then have "is_integer (Finite m e)" by (rule round_frac_whole)
  then show ?thesis
    using quarter_of_integer [of "Finite m e"] by (simp add: round_dollar_points_def)
qed

text \<open>
  C1. The claim: for an item of a valid receipt whose trimmed description has a length that
  is a positive multiple of 3, the engine adds exactly \<open>ceil(price_cents / 500)\<close> points,
  with no deviation from float rounding. The code multiplies \<open>float(price)\<close> by the float
  \<open>0.2\<close>. For the valid item \<open>abc\<close> at 140737488355330.01 the float of the price is
  140737488355330.0, the product rounds to 28147497671066.0, and the engine adds
  28147497671066 points where the exact value is 28147497671067.
\<close>

theorem item_points_float_drift:
  "validate_item 0 drift_item = Inr drift_item
   \<and> length (strip (shortDescription drift_item)) = 3
   \<and> py_float (price drift_item) = Inr (Finite 4503599627370560 (- 5))
   \<and> item_points drift_item = Inr 28147497671066
   \<and> price_cents (price drift_item) = 14073748835533001
   \<and> ceil_div (price_cents (price drift_item)) 500 = 28147497671067
   \<and> item_points drift_item \<noteq> Inr (ceil_div (price_cents (price drift_item)) 500)"
  by code_simp

text \<open>
  C2. The claim: for every valid receipt whose total has no cents the engine awards both
  the 50 points of the round-dollar rule and the 25 points of the quarter rule. By
  \<open>round_total_both_bonuses\<close> that holds whenever the float of the total is finite. The
  total \<open>10 ^ 309\<close> dollars and no cents is valid too; its float is infinity, which is no
  integer and whose remainder by 0.25 is not a number, so the receipt gets neither bonus:
  its score is 12, the 6 points of the retailer name and the 6 of the odd day.
\<close>

theorem round_dollar_overflow:
  "validate huge_total_receipt = Inr huge_total_receipt
   \<and> price_cents (total huge_total_receipt) mod 100 = 0
   \<and> py_float (total huge_total_receipt) = Inr Infinity
   \<and> round_dollar_points Infinity = 0
   \<and> quarter_points Infinity = Inr 0
   \<and> calculate_points huge_total_receipt = Inr 12"
  by code_simp

text \<open>
  C3. The receipt of the first end-to-end example is valid and scores exactly 28 points.
\<close>

theorem example_1_points:
  "validate example_1 = Inr example_1 \<and> calculate_points example_1 = Inr 28"
  using example_1_valid example_1_score by simp

section \<open>Validated receipts in the scoring engine\<close>

text \<open>
  What validation guarantees to the scoring engine: on a validated receipt the float
  conversions and the parse of the time succeed. Two exceptions are left: the
  \<open>OverflowError\<close> of \<open>math.ceil\<close> on an item whose price is infinite as a float, and the
  \<open>ValueError\<close> of \<open>strptime\<close> on a date that validation has written without leading zeros.
\<close>

lemma validate_items_InrD:
  "validate_items i raws = Inr vs \<Longrightarrow> \<forall>v \<in> set vs. fullmatch_money (price v)"
proof (induction raws arbitrary: i vs)
  case Nil
  then show ?case by simp
next
  case (Cons raw raws)
  from Cons.prems obtain v vs' where v: "validate_item i raw = Inr v"
    and vs': "validate_items (Suc i) raws = Inr vs'" and vs: "vs = v # vs'"
    by (auto split: sum.splits)
  from v have "fullmatch_money (price v)"
    by (auto simp: validate_item_def Let_def valid_price_def split: sum.splits if_splits)
  with Cons.IH [OF vs'] vs show ?case by simp
qed

lemma validate_InrD:
  assumes "validate raw = Inr r"
  shows "fullmatch_money (total r)"
    and "\<forall>it \<in> set (items r). fullmatch_money (price it)"
    and "valid_date (purchaseDate raw) = Inr (purchaseDate r)"
    and "valid_time (purchaseTime r) = Inr (purchaseTime r)"
  using assms
  by (auto simp: validate_def Let_def valid_total_def valid_time_def
           split: sum.splits if_splits dest: validate_items_InrD)

lemma float_0_2_value: "float_0_2 = Finite 7205759403792794 (- 55)"
  by code_simp

lemma round_frac_not_NaN: "round_frac n d \<noteq> NaN"
  by (simp add: round_frac_def Let_def)

lemma ceil_of_price:
  assumes "fullmatch_money v"
  shows "\<exists>p. py_float v = Inr p
           \<and> ((\<exists>c. math_ceil (float_mul p float_0_2) = Inr c)
               \<or> math_ceil (float_mul p float_0_2) = Inl OverflowError)"
proof -
  have p: "py_float v = Inr (round_frac (price_cents v) 100)"
    using assms by (rule py_float_money)
  have "float_mul (round_frac (price_cents v) 100) float_0_2 \<noteq> NaN"
    using round_frac_not_NaN [of "price_cents v" 100]
    by (cases "round_frac (price_cents v) 100")
       (simp_all add: float_0_2_value round_frac_not_NaN Let_def)
  then have "(\<exists>c. math_ceil (float_mul (round_frac (price_cents v) 100) float_0_2) = Inr c)
             \<or> math_ceil (float_mul (round_frac (price_cents v) 100) float_0_2) = Inl OverflowError"
    by (cases "float_mul (round_frac (price_cents v) 100) float_0_2") simp_all
  with p show ?thesis by simp
qed

lemma item_points_cases:
  assumes "fullmatch_money (price it)"
  shows "(\<exists>c. item_points it = Inr c) \<or> item_points it = Inl OverflowError"
  using ceil_of_price [OF assms]
  by (auto simp: item_points_def Let_def and_then_def)

lemma items_points_cases:
  assumes "\<forall>it \<in> set its. fullmatch_money (price it)"
  shows "(\<exists>c. items_points its = Inr c)
         \<or> (items_points its = Inl OverflowError
             \<and> (\<exists>it \<in> set its. item_points it = Inl OverflowError))"
  using assms
proof (induction its)
  case Nil
  show ?case by simp
next
  case (Cons it its)
  from Cons.prems have "fullmatch_money (price it)" by simp
  from item_points_cases [OF this] Cons.IH Cons.prems show ?case
    by (auto simp: and_then_def)
qed

lemma quarter_points_returns: "\<exists>q. quarter_points f = Inr q"
  by (cases f) (simp_all add: quarter_points_def float_0_25_value and_then_def Let_def)

lemma strptime_cases: "(\<exists>d. strptime s fmt = Inr d) \<or> strptime s fmt = Inl ValueError"
  by (simp add: strptime_def split: option.splits)

lemma validated_date_parses:
  assumes "validate raw = Inr r"
  shows "\<exists>d. (strptime (purchaseDate raw) ''%Y-%m-%d'' = Inr d
              \<or> strptime (purchaseDate raw) ''%Y/%m/%d'' = Inr d)
           \<and> purchaseDate r = strftime d
           \<and> (1000 \<le> year d \<longrightarrow> strptime (purchaseDate r) ''%Y-%m-%d'' = Inr d)"
  using validate_InrD(3) [OF assms] valid_date_accepts [of "purchaseDate raw"] by blast

lemma calculate_points_on_validated:
  assumes "validate raw = Inr r"
  shows "(\<exists>f. py_float (total r) = Inr f)
         \<and> (\<exists>t. strptime (purchaseTime r) ''%H:%M'' = Inr t)
         \<and> ((\<exists>points. calculate_points r = Inr points)
             \<or> (calculate_points r = Inl OverflowError
                 \<and> (\<exists>it \<in> set (items r). item_points it = Inl OverflowError))
             \<or> (calculate_points r = Inl ValueError
                 \<and> strptime (purchaseDate r) ''%Y-%m-%d'' = Inl ValueError))"
proof -
  note v = validate_InrD [OF assms]
  from v(1) obtain f where f: "py_float (total r) = Inr f"
    by (auto simp: py_float_money)
  from v(4) obtain t where t: "strptime (purchaseTime r) ''%H:%M'' = Inr t"
    by (auto simp: valid_time_def split: sum.splits)
  from quarter_points_returns [of f] obtain q where q: "quarter_points f = Inr q" by blast
  from items_points_cases [OF v(2)] strptime_cases [of "purchaseDate r" "''%Y-%m-%d''"] f t q
  have "(\<exists>points. calculate_points r = Inr points)
        \<or> (calculate_points r = Inl OverflowError
            \<and> (\<exists>it \<in> set (items r). item_points it = Inl OverflowError))
        \<or> (calculate_points r = Inl ValueError
            \<and> strptime (purchaseDate r) ''%Y-%m-%d'' = Inl ValueError)"
    by (auto simp: calculate_points_def and_then_def day_points_def afternoon_points_def
          Let_def)
  with f t show ?thesis by blast
qed

text \<open>
  C8. The claim: \<open>calculate_points\<close> never raises on a validated receipt. By
  \<open>calculate_points_on_validated\<close> the float conversions and the parse of the time do
  succeed, but the ceiling can fail, and so can the parse of a date before the year 1000
  (\<open>valid_date_short_year\<close> has such a receipt). The receipt with one item \<open>abc\<close> priced
  \<open>10 ^ 309\<close> dollars passes validation unchanged; the float of the price is infinity,
  \<open>math.ceil\<close> of it raises \<open>OverflowError\<close>, and the submission is answered with status 500
  and stores nothing.
\<close>

theorem calculate_points_raises:
  "validate huge_price_receipt = Inr huge_price_receipt
   \<and> calculate_points huge_price_receipt = Inl OverflowError
   \<and> serve Map.empty (Submit ''u'' huge_price_receipt)
       = (Map.empty, \<lparr>status_code = 500, content = InternalServerError\<rparr>)"
proof -
  have v: "validate huge_price_receipt = Inr huge_price_receipt"
    by code_simp
  have c: "calculate_points huge_price_receipt = Inl OverflowError"
    by code_simp
  show ?thesis
    by (simp add: v c process_receipt_def)
qed

section \<open>The afternoon window\<close>

lemma strptime_time:
  assumes "strptime t ''%H:%M'' = Inr dt"
  shows "\<exists>h m. dt = \<lparr>year = 1900, month = 1, day = 1, hour = h, minute = m\<rparr>
           \<and> 0 \<le> h \<and> h < 24 \<and> 0 \<le> m \<and> m < 60"
  using assms
  by (auto simp: strptime_def parse_time_def split: option.splits list.splits
           dest: group_H_range group_M_range)

text \<open>
  C6. For a validated receipt, whose \<open>purchaseTime\<close> reads as hour \<open>h\<close> and minute \<open>m\<close>, the
  result of \<open>calculate_points\<close> is the result for the same receipt at \<open>00:00\<close>, which has no
  afternoon bonus, plus 10 points exactly when the time is strictly between 14:00 and
  16:00, that is when its minute of the day is strictly between \<open>14 * 60\<close> and \<open>16 * 60\<close>. The
  first example, which scores 28 at 13:01, scores 28 at 14:00 and at 16:00 and 38 at 15:00.
\<close>

theorem afternoon_window:
  "(validate raw = Inr r \<longrightarrow>
      (\<exists>h m. strptime (purchaseTime r) ''%H:%M''
                = Inr \<lparr>year = 1900, month = 1, day = 1, hour = h, minute = m\<rparr>
         \<and> 0 \<le> h \<and> h < 24 \<and> 0 \<le> m \<and> m < 60
         \<and> calculate_points r
             = (case calculate_points (r\<lparr>purchaseTime := ''00:00''\<rparr>) of
                  Inl e \<Rightarrow> Inl e
                | Inr base \<Rightarrow>
                    Inr (base + (if 14 * 60 < 60 * h + m \<and> 60 * h + m < 16 * 60
                                 then 10 else 0)))))
   \<and> calculate_points (example_1\<lparr>purchaseTime := ''14:00''\<rparr>) = Inr 28
   \<and> calculate_points (example_1\<lparr>purchaseTime := ''16:00''\<rparr>) = Inr 28
   \<and> calculate_points (example_1\<lparr>purchaseTime := ''15:00''\<rparr>) = Inr 38"
proof -
  have "\<exists>h m. strptime (purchaseTime r) ''%H:%M''
                = Inr \<lparr>year = 1900, month = 1, day = 1, hour = h, minute = m\<rparr>
         \<and> 0 \<le> h \<and> h < 24 \<and> 0 \<le> m \<and> m < 60
         \<and> calculate_points r
             = (case calculate_points (r\<lparr>purchaseTime := ''00:00''\<rparr>) of
                  Inl e \<Rightarrow> Inl e
                | Inr base \<Rightarrow>
                    Inr (base + (if 14 * 60 < 60 * h + m \<and> 60 * h + m < 16 * 60
                                 then 10 else 0)))"
    if v: "validate raw = Inr r"
  proof -
    from validate_InrD(4) [OF v] obtain dt where dt: "strptime (purchaseTime r) ''%H:%M'' = Inr dt"
      by (auto simp: valid_time_def split: sum.splits)
    from strptime_time [OF dt] obtain h m
      where shape: "dt = \<lparr>year = 1900, month = 1, day = 1, hour = h, minute = m\<rparr>"
        and range: "0 \<le> h" "h < 24" "0 \<le> m" "m < 60"
      by blast
    have here: "afternoon_points (purchaseTime r)
            = Inr (if 14 * 60 < 60 * h + m \<and> 60 * h + m < 16 * 60 then 10 else 0)"
      using range by (auto simp: afternoon_points_def and_then_def dt shape time_lt_def Let_def)
    have midnight: "afternoon_points ''00:00'' = Inr 0"
      by code_simp
    have "calculate_points r
            = (case calculate_points (r\<lparr>purchaseTime := ''00:00''\<rparr>) of
                 Inl e \<Rightarrow> Inl e
               | Inr base \<Rightarrow>
                   Inr (base + (if 14 * 60 < 60 * h + m \<and> 60 * h + m < 16 * 60
                                then 10 else 0)))"
      by (simp add: calculate_points_def and_then_def here midnight split: sum.splits)
    with dt shape range show ?thesis by blast
  qed
  moreover have "calculate_points (example_1\<lparr>purchaseTime := ''14:00''\<rparr>) = Inr 28"
    by code_simp
  moreover have "calculate_points (example_1\<lparr>purchaseTime := ''16:00''\<rparr>) = Inr 28"
    by code_simp
  moreover have "calculate_points (example_1\<lparr>purchaseTime := ''15:00''\<rparr>) = Inr 38"
    by code_simp
  ultimately show ?thesis by blast
qed

theorem afternoon_window_witness:
  "validate (example_1\<lparr>purchaseTime := ''14:33''\<rparr>) = Inr (example_1\<lparr>purchaseTime := ''14:33''\<rparr>)
   \<and> calculate_points (example_1\<lparr>purchaseTime := ''14:33''\<rparr>) = Inr 38"
proof -
  have v: "validate (example_1\<lparr>purchaseTime := ''14:33''\<rparr>)
             = Inr (example_1\<lparr>purchaseTime := ''14:33''\<rparr>)"
    by code_simp
  have s: "strptime ''14:33'' ''%H:%M''
             = Inr \<lparr>year = 1900, month = 1, day = 1, hour = 14, minute = 33\<rparr>"
    by code_simp
  have b: "calculate_points (example_1\<lparr>purchaseTime := ''00:00''\<rparr>) = Inr 28"
    by code_simp
  from afternoon_window [of "example_1\<lparr>purchaseTime := ''14:33''\<rparr>"
      "example_1\<lparr>purchaseTime := ''14:33''\<rparr>"] v s b
  have "calculate_points (example_1\<lparr>purchaseTime := ''14:33''\<rparr>) = Inr 38"
    by auto
  with v show ?thesis by simp
qed

section \<open>The item pairs\<close>

text \<open>
  C7. Whenever \<open>calculate_points\<close> returns a score for a receipt with \<open>n\<close> items, the score is
  the score of the same receipt without items, plus the points that the descriptions of
  the items earn one by one, plus exactly \<open>5 * floor(n / 2)\<close>: the part of the score that
  comes from the pairs depends on the number of items only, not on what they are nor on
  their order.
\<close>

theorem pair_points_formula:
  "\<forall>points. calculate_points r = Inr points \<longrightarrow>
     (\<exists>base descriptions.
        calculate_points (r\<lparr>items := []\<rparr>) = Inr base
        \<and> items_points (items r) = Inr descriptions
        \<and> points = base + descriptions + 5 * (int (length (items r)) div 2))"
  by (auto simp: calculate_points_def and_then_def pair_points_def split: sum.splits)

theorem pair_points_formula_witness:
  "calculate_points example_1 = Inr 28
   \<and> calculate_points (example_1\<lparr>items := []\<rparr>) = Inr 12
   \<and> items_points (items example_1) = Inr 6
   \<and> length (items example_1) = 5
   \<and> (28::int) = 12 + 6 + 5 * (5 div 2)"
proof -
  have b: "calculate_points (example_1\<lparr>items := []\<rparr>) = Inr 12"
    by code_simp
  have d: "items_points (items example_1) = Inr 6"
    by code_simp
  have n: "length (items example_1) = 5"
    by (simp add: example_1_def)
  from pair_points_formula [of example_1] example_1_score b d n
  show ?thesis by simp
qed

section \<open>The store\<close>

lemma serve_dom:
  "dom (fst (serve receipts rq)) = dom receipts \<union> issued_id rq (snd (serve receipts rq))"
proof (cases rq)
  case (Submit uuid body)
  then show ?thesis
    by (auto simp: process_receipt_def validation_exception_handler_def Let_def
             split: sum.splits prod.splits)
next
  case (Retrieve rid)
  then show ?thesis by simp
qed

lemma run_dom: "dom (run receipts rqs) = dom receipts \<union> issued receipts rqs"
  by (induction rqs arbitrary: receipts) (auto simp: serve_dom)

lemma issued_example:
  "issued Map.empty [Submit ''id-1'' example_1, Retrieve ''id-1''] = {''id-1''}"
  by (simp add: example_1_valid example_1_score process_receipt_def Let_def strip_def
        isspace_def ord_def)

lemma run_example:
  "run Map.empty [Submit ''id-1'' example_1, Retrieve ''id-1''] ''id-1'' = Some 28"
  by (simp add: example_1_valid example_1_score process_receipt_def Let_def strip_def
        isspace_def ord_def)

text \<open>
  C9. The service starts with an empty store. After any requests, an identifier that no
  successful submission has returned is answered with status 404 and the fixed message;
  an identifier that one has returned is answered with status 200 and the score the store
  holds for it.
\<close>

theorem get_points_after_run:
  "(rid \<notin> issued Map.empty rqs \<longrightarrow>
      get_points (run Map.empty rqs) rid
        = \<lparr>status_code = 404, content = ErrorContent ''No receipt found for that ID.''\<rparr>)
   \<and> (rid \<in> issued Map.empty rqs \<longrightarrow>
        (\<exists>points. run Map.empty rqs rid = Some points
           \<and> get_points (run Map.empty rqs) rid
               = \<lparr>status_code = 200, content = PointsContent points\<rparr>))"
proof -
  have d: "dom (run Map.empty rqs) = issued Map.empty rqs"
    by (simp add: run_dom)
  show ?thesis
  proof (cases "rid \<in> issued Map.empty rqs")
    case True
    with d obtain p where "run Map.empty rqs rid = Some p" by auto
    with True show ?thesis by (simp add: get_points_def)
  next
    case False
    with d have "run Map.empty rqs rid = None" by (auto simp: dom_def)
    with False show ?thesis by (simp add: get_points_def)
  qed
qed

theorem get_points_after_run_witness:
  "get_points (run Map.empty [Submit ''id-1'' example_1, Retrieve ''id-1'']) ''id-2''
     = \<lparr>status_code = 404, content = ErrorContent ''No receipt found for that ID.''\<rparr>
   \<and> get_points (run Map.empty [Submit ''id-1'' example_1, Retrieve ''id-1'']) ''id-1''
     = \<lparr>status_code = 200, content = PointsContent 28\<rparr>"
  using get_points_after_run [of "''id-2''" "[Submit ''id-1'' example_1, Retrieve ''id-1'']"]
        get_points_after_run [of "''id-1''" "[Submit ''id-1'' example_1, Retrieve ''id-1'']"]
  by (simp only: issued_example run_example) simp




section \<open>The validators and the rules of the specification\<close>

lemma strip_empty_iff: "strip v = [] \<longleftrightarrow> blank v"
proof -
  have "strip v = [] \<longleftrightarrow> (\<forall>x \<in> set (dropWhile isspace v). isspace x)"
    by (simp add: strip_def dropWhile_eq_Nil_conv)
  also have "\<dots> \<longleftrightarrow> dropWhile isspace v = []"
  proof
    assume all: "\<forall>x \<in> set (dropWhile isspace v). isspace x"
    show "dropWhile isspace v = []"
    proof (rule ccontr)
      assume ne: "dropWhile isspace v \<noteq> []"
      then have "\<not> isspace (hd (dropWhile isspace v))" by (rule hd_dropWhile)
      moreover from ne have "hd (dropWhile isspace v) \<in> set (dropWhile isspace v)" by simp
      ultimately show False using all by blast
    qed
  next
    assume "dropWhile isspace v = []"
    then show "\<forall>x \<in> set (dropWhile isspace v). isspace x"
      by (simp del: dropWhile_eq_Nil_conv)
  qed
  also have "\<dots> \<longleftrightarrow> blank v"
    by (simp add: blank_def dropWhile_eq_Nil_conv list_all_iff)
  finally show ?thesis .
qed

lemma fullmatch_money_iff: "fullmatch_money v \<longleftrightarrow> two_decimals v"
proof -
  consider "v = []" | b where "v = [b]" | a b where "v = [a, b]"
    | ip dot a b where "v = ip @ [dot, a, b]"
  proof (cases v rule: rev_cases)
    case Nil
    then show ?thesis using that(1) by simp
  next
    case (snoc xs b)
    note v = this
    show ?thesis
    proof (cases xs rule: rev_cases)
      case Nil
      with v show ?thesis using that(2) by simp
    next
      case (snoc ys a)
      note xs = this
      show ?thesis
      proof (cases ys rule: rev_cases)
        case Nil
        with v xs show ?thesis using that(3) by simp
      next
        case (snoc ip dot)
        with v xs show ?thesis using that(4) by simp
      qed
    qed
  qed
  then show ?thesis
  proof cases
    case 4
    then show ?thesis
      by (auto simp: fullmatch_money_def two_decimals_def Let_def nth_append Suc_le_eq)
  qed (simp_all add: fullmatch_money_def two_decimals_def)
qed

lemma retailer_rule:
  "and_then (min_length_1 v) retailer_not_empty
     = (if blank v
        then Inl (if v = [] then ''ensure this value has at least 1 characters''
                  else ''Retailer cannot be empty or whitespace'')
        else Inr v)"
  by (auto simp: and_then_def min_length_1_def retailer_not_empty_def strip_empty_iff blank_def)

lemma description_rule:
  "and_then (min_length_1 v) description_not_empty
     = (if blank v
        then Inl (if v = [] then ''ensure this value has at least 1 characters''
                  else ''shortDescription cannot be empty or whitespace'')
        else Inr v)"
  by (auto simp: and_then_def min_length_1_def description_not_empty_def strip_empty_iff
        blank_def)

lemma price_rule:
  "valid_price v = (if two_decimals v then Inr v else Inl ''Price must be in XX.XX format'')"
  by (simp add: valid_price_def fullmatch_money_iff)

lemma total_rule:
  "valid_total v = (if two_decimals v then Inr v else Inl ''Total must be in XX.XX format'')"
  by (simp add: valid_total_def fullmatch_money_iff)

lemma date_rule:
  "(\<exists>d. valid_date v = Inr d) \<longleftrightarrow> parses_as_date v"
  by (auto simp: valid_date_cases parses_as_date_def split: option.splits)

lemma time_rule:
  "valid_time v
     = (if parses_as_time v then Inr v
        else Inl ''purchaseTime must be a valid time in HH:MM format'')"
  by (auto simp: valid_time_def strptime_def parses_as_time_def split: option.splits)

section \<open>The errors of a submission\<close>

lemma check_field_paths:
  assumes "\<And>v. (\<exists>m. validators v = Inl m) \<longleftrightarrow> broken v"
  shows "map (\<lambda>e. drop 1 (loc e)) (errors_of (check_field (Key ''body'' # p) f validators))
           = field_violation p f broken
         \<and> ((\<exists>x. check_field (Key ''body'' # p) f validators = Inr x)
              \<longleftrightarrow> field_violation p f broken = [])
         \<and> (\<forall>e \<in> set (errors_of (check_field (Key ''body'' # p) f validators)).
               take 1 (loc e) = [Key ''body''])"
proof (cases f)
  case Missing
  then show ?thesis
    by (simp add: check_field_def field_violation_def errors_of_def)
next
  case (Present t)
  show ?thesis
  proof (cases t)
    case (Refused m)
    with Present show ?thesis
      by (simp add: check_field_def field_violation_def errors_of_def)
  next
    case (Typed v)
    show ?thesis
    proof (cases "validators v")
      case (Inl m)
      with assms [of v] have "broken v" by blast
      with Present Typed Inl show ?thesis
        by (simp add: check_field_def field_violation_def errors_of_def)
    next
      case (Inr x)
      with assms [of v] have "\<not> broken v" by auto
      with Present Typed Inr show ?thesis
        by (simp add: check_field_def field_violation_def errors_of_def)
    qed
  qed
qed

lemma retailer_broken:
  "(\<exists>m. and_then (min_length_1 v) retailer_not_empty = Inl m) \<longleftrightarrow> blank v"
  by (simp add: retailer_rule)

lemma description_broken:
  "(\<exists>m. and_then (min_length_1 v) description_not_empty = Inl m) \<longleftrightarrow> blank v"
  by (simp add: description_rule)

lemma price_broken: "(\<exists>m. valid_price v = Inl m) \<longleftrightarrow> \<not> two_decimals v"
  by (simp add: price_rule)

lemma total_broken: "(\<exists>m. valid_total v = Inl m) \<longleftrightarrow> \<not> two_decimals v"
  by (simp add: total_rule)

lemma date_broken: "(\<exists>m. valid_date v = Inl m) \<longleftrightarrow> \<not> parses_as_date v"
  using date_rule [of v] by (cases "valid_date v") auto

lemma time_broken: "(\<exists>m. valid_time v = Inl m) \<longleftrightarrow> \<not> parses_as_time v"
  by (simp add: time_rule)

lemma validate_raw_item_paths:
  "map (\<lambda>e. drop 1 (loc e)) (errors_of (validate_raw_item i x)) = item_violations i [x]
   \<and> ((\<exists>v. validate_raw_item i x = Inr v) \<longleftrightarrow> item_violations i [x] = [])
   \<and> (\<forall>e \<in> set (errors_of (validate_raw_item i x)). take 1 (loc e) = [Key ''body''])"
proof (cases x)
  case (Refused m)
  then show ?thesis by (simp add: errors_of_def)
next
  case (Typed it)
  define d where "d = check_field [Key ''body'', Key ''items'', Idx i, Key ''shortDescription'']
                        (raw_shortDescription it)
                        (\<lambda>v. and_then (min_length_1 v) description_not_empty)"
  define p where "p = check_field [Key ''body'', Key ''items'', Idx i, Key ''price'']
                        (raw_price it) valid_price"
  have e: "errors_of (validate_raw_item i x) = errors_of d @ errors_of p"
    by (simp add: Typed d_def [symmetric] p_def [symmetric] errors_of_def split: sum.splits)
  have r: "(\<exists>v. validate_raw_item i x = Inr v) \<longleftrightarrow> (\<exists>v. d = Inr v) \<and> (\<exists>v. p = Inr v)"
    by (simp add: Typed d_def [symmetric] p_def [symmetric] split: sum.splits)
  note fd = check_field_paths [of "\<lambda>v. and_then (min_length_1 v) description_not_empty" blank
      "[Key ''items'', Idx i, Key ''shortDescription'']" "raw_shortDescription it",
      OF description_broken, folded d_def]
  note fp = check_field_paths [of valid_price "\<lambda>v. \<not> two_decimals v"
      "[Key ''items'', Idx i, Key ''price'']" "raw_price it", OF price_broken, folded p_def]
  from fd fp show ?thesis
    unfolding e r by (auto simp: Typed)
qed

lemma validate_raw_items_Cons_errors:
  "errors_of (validate_raw_items i (x # xs))
     = errors_of (validate_raw_item i x) @ errors_of (validate_raw_items (Suc i) xs)"
  by (simp add: errors_of_def split: sum.splits)

lemma validate_raw_items_Cons_Inr:
  "(\<exists>vs. validate_raw_items i (x # xs) = Inr vs)
     \<longleftrightarrow> (\<exists>v. validate_raw_item i x = Inr v) \<and> (\<exists>vs. validate_raw_items (Suc i) xs = Inr vs)"
  by (auto split: sum.splits)

lemma item_violations_Cons:
  "item_violations i (x # xs) = item_violations i [x] @ item_violations (Suc i) xs"
  by (cases x) simp_all

lemma validate_raw_items_paths:
  "map (\<lambda>e. drop 1 (loc e)) (errors_of (validate_raw_items i xs)) = item_violations i xs
   \<and> ((\<exists>vs. validate_raw_items i xs = Inr vs) \<longleftrightarrow> item_violations i xs = [])
   \<and> (\<forall>e \<in> set (errors_of (validate_raw_items i xs)). take 1 (loc e) = [Key ''body''])"
proof (induction xs arbitrary: i)
  case Nil
  show ?case by (simp add: errors_of_def)
next
  case (Cons x xs)
  note one = validate_raw_item_paths [of i x]
  note rest = Cons.IH [of "Suc i"]
  have "map (\<lambda>e. drop 1 (loc e)) (errors_of (validate_raw_items i (x # xs)))
          = item_violations i (x # xs)"
    unfolding validate_raw_items_Cons_errors item_violations_Cons [of i x xs]
    using one rest by simp
  moreover have "(\<exists>vs. validate_raw_items i (x # xs) = Inr vs)
                   \<longleftrightarrow> item_violations i (x # xs) = []"
    unfolding validate_raw_items_Cons_Inr item_violations_Cons [of i x xs]
    using one rest by simp
  moreover have "\<forall>e \<in> set (errors_of (validate_raw_items i (x # xs))).
                   take 1 (loc e) = [Key ''body'']"
    unfolding validate_raw_items_Cons_errors
    using one rest by auto
  ultimately show ?case by blast
qed

lemma validate_body_paths:
  "map (\<lambda>e. drop 1 (loc e)) (errors_of (validate_body body)) = violations body
   \<and> ((\<exists>r. validate_body body = Inr r) \<longleftrightarrow> violations body = [])
   \<and> (\<forall>e \<in> set (errors_of (validate_body body)). take 1 (loc e) = [Key ''body''])"
proof (cases body)
  case (Refused m)
  then show ?thesis by (simp add: errors_of_def)
next
  case (Typed raw)
  define r where "r = check_field [Key ''body'', Key ''retailer''] (raw_retailer raw)
                        (\<lambda>v. and_then (min_length_1 v) retailer_not_empty)"
  define d where "d = check_field [Key ''body'', Key ''purchaseDate''] (raw_purchaseDate raw)
                        valid_date"
  define t where "t = check_field [Key ''body'', Key ''purchaseTime''] (raw_purchaseTime raw)
                        valid_time"
  define its where "its = (case raw_items raw of
                   Missing \<Rightarrow> Inl [\<lparr>loc = [Key ''body'', Key ''items''], msg = ''field required''\<rparr>]
                 | Present (Refused m) \<Rightarrow> Inl [\<lparr>loc = [Key ''body'', Key ''items''], msg = m\<rparr>]
                 | Present (Typed raws) \<Rightarrow> validate_raw_items 0 raws)"
  define tot where "tot = check_field [Key ''body'', Key ''total''] (raw_total raw) valid_total"
  define vits where "vits = (case raw_items raw of
                               Missing \<Rightarrow> [ [Key ''items'']]
                             | Present (Refused _) \<Rightarrow> [ [Key ''items'']]
                             | Present (Typed xs) \<Rightarrow> item_violations 0 xs)"
  have e: "errors_of (validate_body body)
             = errors_of r @ errors_of d @ errors_of t @ errors_of its @ errors_of tot"
    by (simp add: Typed r_def [symmetric] d_def [symmetric] t_def [symmetric]
          its_def [symmetric] tot_def [symmetric] errors_of_def split: sum.splits)
  have ok: "(\<exists>x. validate_body body = Inr x)
              \<longleftrightarrow> (\<exists>x. r = Inr x) \<and> (\<exists>x. d = Inr x) \<and> (\<exists>x. t = Inr x) \<and> (\<exists>x. its = Inr x)
                  \<and> (\<exists>x. tot = Inr x)"
    by (simp add: Typed r_def [symmetric] d_def [symmetric] t_def [symmetric]
          its_def [symmetric] tot_def [symmetric] split: sum.splits)
  have v: "violations body
             = field_violation [Key ''retailer''] (raw_retailer raw) blank
               @ field_violation [Key ''purchaseDate''] (raw_purchaseDate raw)
                   (\<lambda>v. \<not> parses_as_date v)
               @ field_violation [Key ''purchaseTime''] (raw_purchaseTime raw)
                   (\<lambda>v. \<not> parses_as_time v)
               @ vits
               @ field_violation [Key ''total''] (raw_total raw) (\<lambda>v. \<not> two_decimals v)"
    by (simp add: Typed vits_def)
  note fr = check_field_paths [of "\<lambda>v. and_then (min_length_1 v) retailer_not_empty" blank
      "[Key ''retailer'']" "raw_retailer raw", OF retailer_broken, folded r_def]
  note fd = check_field_paths [of valid_date "\<lambda>v. \<not> parses_as_date v"
      "[Key ''purchaseDate'']" "raw_purchaseDate raw", OF date_broken, folded d_def]
  note ft = check_field_paths [of valid_time "\<lambda>v. \<not> parses_as_time v"
      "[Key ''purchaseTime'']" "raw_purchaseTime raw", OF time_broken, folded t_def]
  note ftot = check_field_paths [of valid_total "\<lambda>v. \<not> two_decimals v"
      "[Key ''total'']" "raw_total raw", OF total_broken, folded tot_def]
  have fits: "map (\<lambda>e. drop 1 (loc e)) (errors_of its) = vits
              \<and> ((\<exists>x. its = Inr x) \<longleftrightarrow> vits = [])
              \<and> (\<forall>e \<in> set (errors_of its). take 1 (loc e) = [Key ''body''])"
  proof (cases "raw_items raw")
    case Missing
    then show ?thesis by (simp add: its_def vits_def errors_of_def)
  next
    case (Present ty)
    show ?thesis
    proof (cases ty)
      case (Refused m)
      with Present show ?thesis by (simp add: its_def vits_def errors_of_def)
    next
      case (Typed xs)
      with Present validate_raw_items_paths [of 0 xs] show ?thesis
        by (simp add: its_def vits_def)
    qed
  qed
  from fr fd ft fits ftot show ?thesis
    unfolding e ok v by auto
qed

text \<open>
  C4. A submission in which \<open>N > 0\<close> fields are in violation (a field missing, of a wrong
  type, or breaking its rule, each counted once; the body itself or an element of
  \<open>items\<close> that is no object counts as one) is answered with status 400 and a list of
  exactly \<open>N\<close> entries, one for each of those fields and in their order: the entry of a
  field is its dotted path, without the leading \<open>body\<close>, then a colon and a blank, then
  the message of the check that failed. A submission with no violation passes
  validation.
\<close>

theorem submission_errors_complete:
  "(violations body \<noteq> [] \<longrightarrow>
      (\<exists>errors. validate_body body = Inl errors
         \<and> map (\<lambda>e. drop 1 (loc e)) errors = violations body
         \<and> (\<forall>e \<in> set errors. take 1 (loc e) = [Key ''body''])
         \<and> length errors = length (violations body)
         \<and> submit receipts uuid body
             = (receipts,
                \<lparr>status_code = 400,
                 content = ErrorListContent
                   (map (\<lambda>e. join ''.'' (map str_loc (drop 1 (loc e))) @ '': '' @ msg e)
                      errors)\<rparr>)))
   \<and> (violations body = [] \<longrightarrow> (\<exists>r. validate_body body = Inr r))"
proof -
  have "\<exists>errors. validate_body body = Inl errors
         \<and> map (\<lambda>e. drop 1 (loc e)) errors = violations body
         \<and> (\<forall>e \<in> set errors. take 1 (loc e) = [Key ''body''])
         \<and> length errors = length (violations body)
         \<and> submit receipts uuid body
             = (receipts,
                \<lparr>status_code = 400,
                 content = ErrorListContent
                   (map (\<lambda>e. join ''.'' (map str_loc (drop 1 (loc e))) @ '': '' @ msg e)
                      errors)\<rparr>)"
    if bad: "violations body \<noteq> []"
  proof -
    from bad validate_body_paths [of body] obtain errors
      where v: "validate_body body = Inl errors"
      by (cases "validate_body body") auto
    then have e: "errors_of (validate_body body) = errors"
      by (simp add: errors_of_def)
    from validate_body_paths [of body] e
    have p: "map (\<lambda>e. drop 1 (loc e)) errors = violations body" by simp
    then have "length (map (\<lambda>e. drop 1 (loc e)) errors) = length (violations body)" by simp
    then have l: "length errors = length (violations body)" by simp
    from validate_body_paths [of body] e
    have b: "\<forall>e \<in> set errors. take 1 (loc e) = [Key ''body'']" by simp
    have "submit receipts uuid body
            = (receipts,
               \<lparr>status_code = 400,
                content = ErrorListContent
                  (map (\<lambda>e. join ''.'' (map str_loc (drop 1 (loc e))) @ '': '' @ msg e)
                     errors)\<rparr>)"
      by (simp add: submit_def v validation_exception_handler_def error_message_def)
    with v p b l show ?thesis by blast
  qed
  moreover have "\<exists>r. validate_body body = Inr r" if "violations body = []"
    using that validate_body_paths [of body] by simp
  ultimately show ?thesis by blast
qed

lemma bad_body_violations:
  "violations bad_body
     = [ [Key ''retailer''], [Key ''purchaseDate''], [Key ''purchaseTime''],
        [Key ''items'', Idx 0], [Key ''items'', Idx 1, Key ''price''], [Key ''total'']]"
  by code_simp

lemma bad_body_errors:
  "validate_body bad_body =
     Inl [\<lparr>loc = [Key ''body'', Key ''retailer''], msg = ''field required''\<rparr>,
          \<lparr>loc = [Key ''body'', Key ''purchaseDate''],
             msg = ''purchaseDate must be a valid date in YYYY-MM-DD or YYYY/MM/DD format''\<rparr>,
          \<lparr>loc = [Key ''body'', Key ''purchaseTime''], msg = ''str type expected''\<rparr>,
          \<lparr>loc = [Key ''body'', Key ''items'', Idx 0], msg = ''value is not a valid dict''\<rparr>,
          \<lparr>loc = [Key ''body'', Key ''items'', Idx 1, Key ''price''], msg = ''field required''\<rparr>,
          \<lparr>loc = [Key ''body'', Key ''total''], msg = ''Total must be in XX.XX format''\<rparr>]"
  by code_simp

theorem submission_errors_complete_witness:
  "length (violations bad_body) = 6
   \<and> submit Map.empty ''u'' bad_body
       = (Map.empty,
          \<lparr>status_code = 400,
           content = ErrorListContent
             [''retailer: field required'',
              ''purchaseDate: purchaseDate must be a valid date in YYYY-MM-DD or YYYY/MM/DD format'',
              ''purchaseTime: str type expected'',
              ''items.0: value is not a valid dict'',
              ''items.1.price: field required'',
              ''total: Total must be in XX.XX format'']\<rparr>)"
proof -
  have n: "str_int 0 = ''0''" "str_int 1 = ''1''"
    by code_simp+
  from submission_errors_complete [of bad_body Map.empty "''u''"]
  show ?thesis
    by (simp add: bad_body_violations bad_body_errors n)
qed

text \<open>
  The two models of the route agree: the route on the body \<open>raw_of r\<close>, which holds every
  field of \<open>r\<close> with its declared type, is \<open>serve\<close> on \<open>r\<close>.
\<close>

lemma check_field_typed:
  "check_field l (Present (Typed v)) validators
     = (case validators v of Inl m \<Rightarrow> Inl [\<lparr>loc = l, msg = m\<rparr>] | Inr x \<Rightarrow> Inr x)"
  by (simp add: check_field_def)

lemma validate_raw_item_raw_of: "validate_raw_item i (raw_of_item it) = validate_item i it"
  by (simp add: raw_of_item_def validate_item_def check_field_typed field_errors_def
        errors_of_def Let_def split: sum.splits)

lemma validate_raw_items_raw_of:
  "validate_raw_items i (map raw_of_item its) = validate_items i its"
  by (induction its arbitrary: i) (simp_all add: validate_raw_item_raw_of)

lemma validate_body_raw_of: "validate_body (raw_of r) = validate r"
  by (simp add: raw_of_def validate_def check_field_typed validate_raw_items_raw_of
        field_errors_def errors_of_def Let_def split: sum.splits)

lemma serve_submit: "serve receipts (Submit uuid r) = submit receipts uuid (raw_of r)"
  by (simp add: submit_def validate_body_raw_of)

end
